theory Spec2Isabelle
  imports Main "HOL-Library.Word"
begin

unbundle bit_operations_syntax

section \<open>JavaScript strings\<close>

text \<open>
  A JavaScript string is a sequence of UTF-16 code units, and \<open>.length\<close> counts code
  units. String literals of the source are written with \<open>js\<close>; the reserved
  delimiter of the source (\<open>var stopkey\<close>, the section sign U+00A7) is one code unit.
\<close>

type_synonym jschar = "16 word"
type_synonym jsstring = "jschar list"

definition js :: "string \<Rightarrow> jsstring" where
  "js s = map of_char s"

definition stopkey :: jsstring where
  "stopkey = [0xA7]"

text \<open>\<open>s.startsWith(p)\<close>, used to express where a search string matches.\<close>

fun starts_with :: "'a list \<Rightarrow> 'a list \<Rightarrow> bool" where
  "starts_with s [] = True"
| "starts_with [] (p # ps) = False"
| "starts_with (c # cs) (p # ps) = (c = p \<and> starts_with cs ps)"

text \<open>
  \<open>s.indexOf(p)\<close>: the least position at which \<open>p\<close> occurs, \<open>None\<close> for the
  source's \<open>-1\<close>.
\<close>

fun js_indexOf :: "'a list \<Rightarrow> 'a list \<Rightarrow> nat option" where
  "js_indexOf [] p = (if p = [] then Some 0 else None)"
| "js_indexOf (c # cs) p =
     (if starts_with (c # cs) p then Some 0
      else map_option Suc (js_indexOf cs p))"

definition js_includes :: "'a list \<Rightarrow> 'a list \<Rightarrow> bool" where
  "js_includes s p = (js_indexOf s p \<noteq> None)"

text \<open>
  \<open>GetSubstitution\<close> of ECMAScript for a string pattern (no capture groups): in the
  replacement text \<open>$$\<close> stands for a dollar sign, \<open>$&\<close> for the matched text,
  \<open>$`\<close> for the text before the match and \<open>$'\<close> for the text after it; every
  other character, and a dollar sign followed by anything else, is copied.
\<close>

fun get_substitution :: "jsstring \<Rightarrow> jsstring \<Rightarrow> jsstring \<Rightarrow> jsstring \<Rightarrow> jsstring" where
  "get_substitution matched pre post [] = []"
| "get_substitution matched pre post [c] = [c]"
| "get_substitution matched pre post (c # d # r) =
     (if c = 0x24 \<and> d = 0x24 then 0x24 # get_substitution matched pre post r
      else if c = 0x24 \<and> d = 0x26 then matched @ get_substitution matched pre post r
      else if c = 0x24 \<and> d = 0x60 then pre @ get_substitution matched pre post r
      else if c = 0x24 \<and> d = 0x27 then post @ get_substitution matched pre post r
      else c # get_substitution matched pre post (d # r))"

text \<open>
  \<open>s.replace(p, r)\<close> with a string pattern: only the first occurrence of \<open>p\<close> is
  replaced, and a string without \<open>p\<close> is returned unchanged.
\<close>

definition js_replace :: "jsstring \<Rightarrow> jsstring \<Rightarrow> jsstring \<Rightarrow> jsstring" where
  "js_replace s p r =
     (case js_indexOf s p of
        None \<Rightarrow> s
      | Some i \<Rightarrow>
          take i s @ get_substitution p (take i s) (drop (i + length p) s) r
            @ drop (i + length p) s)"

text \<open>
  \<open>s.split(sep)\<close> with a non-empty string separator: the pieces between the
  occurrences of \<open>sep\<close>, found from left to right without overlap. \<open>cur\<close> holds
  the piece being read, reversed. With the empty separator JavaScript returns the code
  units one by one.
\<close>

function split_from :: "'a list \<Rightarrow> 'a list \<Rightarrow> 'a list \<Rightarrow> 'a list list" where
  "split_from sep cur [] = [rev cur]"
| "split_from sep cur (c # cs) =
     (if sep \<noteq> [] \<and> starts_with (c # cs) sep
      then rev cur # split_from sep [] (drop (length sep) (c # cs))
      else split_from sep (c # cur) cs)"
  by pat_completeness auto
termination
  by (relation "measure (\<lambda>(sep, cur, s). length s)") (auto simp: neq_Nil_conv)

definition js_split :: "'a list \<Rightarrow> 'a list \<Rightarrow> 'a list list" where
  "js_split s sep = (if sep = [] then map (\<lambda>c. [c]) s else split_from sep [] s)"

text \<open>
  Reading an array element for string concatenation: an index past the end gives
  \<open>undefined\<close>, which \<open>+\<close> turns into the text "undefined".
\<close>

definition elem_str :: "jsstring list \<Rightarrow> nat \<Rightarrow> jsstring" where
  "elem_str arr i = (if i < length arr then arr ! i else js ''undefined'')"

section \<open>Scope identifiers\<close>

text \<open>
  \<open>loadKeys\<close> of the popup script computes, from the URL of the active tab, the key
  under which the server secret is stored (\<open>serverurl\<close>) and the key of the channel
  secret (\<open>channelurl\<close>).
\<close>

definition loadKeys_scope :: "jsstring \<Rightarrow> jsstring \<times> jsstring" where
  "loadKeys_scope tab_url =
     (let url = js_replace tab_url (js ''https://'') [];
          urlarr = js_split url (js ''/'');
          serverurl = elem_str urlarr 0 @ js ''/'' @ elem_str urlarr 1 @ js ''/'' @ elem_str urlarr 2;
          channelurl = url
      in (serverurl, channelurl))"

text \<open>
  \<open>setPassphrase\<close> of the injected script computes the same two keys from
  \<open>window.location.href\<close> before it reads the secrets.
\<close>

definition setPassphrase_scope :: "jsstring \<Rightarrow> jsstring \<times> jsstring" where
  "setPassphrase_scope href =
     (let url = js_replace href (js ''https://'') [];
          urlarr = js_split url (js ''/'');
          serverurl = elem_str urlarr 0 @ js ''/'' @ elem_str urlarr 1 @ js ''/'' @ elem_str urlarr 2;
          channelurl = url
      in (serverurl, channelurl))"

text \<open>
  \<open>setPassphrase\<close> then reads the two secrets from the stored object under these
  keys; a key that is not stored gives \<open>undefined\<close>, which is replaced by the empty
  string.
\<close>

definition setPassphrase_secrets :: "jsstring \<Rightarrow> (jsstring \<rightharpoonup> jsstring) \<Rightarrow> jsstring \<times> jsstring" where
  "setPassphrase_secrets href obj =
     (let (serverurl, channelurl) = setPassphrase_scope href;
          serverkey = (case obj serverurl of None \<Rightarrow> [] | Some k \<Rightarrow> k);
          channelkey = (case obj channelurl of None \<Rightarrow> [] | Some k \<Rightarrow> k)
      in (serverkey, channelkey))"

text \<open>Pieces of text joined by slashes, to say what a key is made of.\<close>

fun slash_join :: "jsstring list \<Rightarrow> jsstring" where
  "slash_join [] = []"
| "slash_join [s] = s"
| "slash_join (s # t # r) = s @ 0x2F # slash_join (t # r)"

text \<open>
  The scope identifiers as the specification words them, for comparison with the code:
  the scheme prefix (the text up to and including the first \<open>://\<close>) is stripped, the
  narrow identifier is the stripped location and the broad identifier joins its first
  three path segments.
\<close>

definition strip_scheme :: "jsstring \<Rightarrow> jsstring" where
  "strip_scheme loc = (case js_indexOf loc (js ''://'') of None \<Rightarrow> loc | Some i \<Rightarrow> drop (i + 3) loc)"

definition spec_scope :: "jsstring \<Rightarrow> jsstring \<times> jsstring" where
  "spec_scope loc = (slash_join (take 3 (js_split (strip_scheme loc) (js ''/''))), strip_scheme loc)"

section \<open>Storing the secrets\<close>

text \<open>
  The character class \<open>\s\<close> of a JavaScript regular expression: the white space and
  line terminator code points.
\<close>

definition is_js_space :: "jschar \<Rightarrow> bool" where
  "is_js_space c \<longleftrightarrow>
     c \<in> {0x09, 0x0A, 0x0B, 0x0C, 0x0D, 0x20, 0xA0, 0x1680, 0x2028, 0x2029, 0x202F,
          0x205F, 0x3000, 0xFEFF} \<or> (0x2000 \<le> c \<and> c \<le> 0x200A)"

text \<open>\<open>s.replace(/\s/g, '')\<close>\<close>

definition strip_ws :: "jsstring \<Rightarrow> jsstring" where
  "strip_ws s = filter (\<lambda>c. \<not> is_js_space c) s"

text \<open>
  The popup: the persisted store (\<open>chrome.storage.local\<close>, string keys to the stored
  secrets), the alerts shown so far and the text of the info line.
\<close>

record popup =
  storage :: "jsstring \<rightharpoonup> jsstring"
  alerts :: "jsstring list"
  info :: jsstring

definition saveChrome :: "jsstring \<Rightarrow> jsstring \<Rightarrow> popup \<Rightarrow> popup" where
  "saveChrome key v p = p\<lparr>storage := (storage p)(key \<mapsto> v)\<rparr>"

definition alert :: "jsstring \<Rightarrow> popup \<Rightarrow> popup" where
  "alert msg p = p\<lparr>alerts := alerts p @ [msg]\<rparr>"

text \<open>
  \<open>setKeys\<close>, with the two globals \<open>serverurl\<close> and \<open>channelurl\<close> and the values
  of the two input fields as arguments.
\<close>

definition setKeys :: "jsstring \<Rightarrow> jsstring \<Rightarrow> jsstring \<Rightarrow> jsstring \<Rightarrow> popup \<Rightarrow> popup" where
  "setKeys serverurl channelurl server_input channel_input p =
     (let serverkey = strip_ws server_input in
      if length serverkey > 5 then
        (let p1 = saveChrome serverurl serverkey p;
             channelkey = strip_ws channel_input;
             p2 = (if channelkey \<noteq> [] then
                     (if length channelkey > 5 then saveChrome channelurl channelkey p1
                      else alert (js ''Your channel password is too short'') p1)
                   else p1)
         in p2\<lparr>info := js ''Done. Refresh your page and click the icon to activate.''\<rparr>)
      else alert (js ''Your server password is too short'') p)"

text \<open>
  The popup as a whole: \<open>loadKeys\<close> runs when the popup is opened and leaves the two
  keys of the active tab in the globals \<open>serverurl\<close> and \<open>channelurl\<close>, which
  \<open>setKeys\<close> uses when the button is clicked.
\<close>

definition popup_setKeys :: "jsstring \<Rightarrow> jsstring \<Rightarrow> jsstring \<Rightarrow> popup \<Rightarrow> popup" where
  "popup_setKeys tab_url server_input channel_input p =
     (let (serverurl, channelurl) = loadKeys_scope tab_url
      in setKeys serverurl channelurl server_input channel_input p)"

section \<open>Numbers and arrays of the cipher library\<close>

text \<open>
  The library keeps 32-bit integers in JavaScript numbers. Its bitwise operators work
  modulo \<open>2^32\<close>, and every sum it forms is reduced by a bitwise operator before it can
  leave the range in which a number is exact, so a \<open>32 word\<close> carries the same value.
  A shift count is taken modulo 32, as the operators \<open><<\<close> and \<open>>>>\<close> do.
\<close>

type_synonym u32 = "32 word"

definition shl :: "u32 \<Rightarrow> nat \<Rightarrow> u32" where
  "shl x n = push_bit (n mod 32) x"

definition shr :: "u32 \<Rightarrow> nat \<Rightarrow> u32" where
  "shr x n = drop_bit (n mod 32) x"

text \<open>
  Reading an array element inside a bitwise expression: an index past the end gives
  \<open>undefined\<close>, which the operator turns into 0. Writing past the end extends the
  array; the holes left behind read as 0 in the same way.
\<close>

definition wget :: "u32 list \<Rightarrow> nat \<Rightarrow> u32" where
  "wget ws i = (if i < length ws then ws ! i else 0)"

definition wset :: "u32 list \<Rightarrow> nat \<Rightarrow> u32 \<Rightarrow> u32 list" where
  "wset ws i v =
     (if i < length ws then ws[i := v] else ws @ replicate (i - length ws) 0 @ [v])"

text \<open>\<open>ws[i] |= v\<close>\<close>

definition or_at :: "u32 list \<Rightarrow> nat \<Rightarrow> u32 \<Rightarrow> u32 list" where
  "or_at ws i v = wset ws i (wget ws i OR v)"

text \<open>Byte \<open>i\<close> of an array of words: \<open>ws[i >>> 2] >>> (24 - 8 * (i % 4)) & 255\<close>.\<close>

definition byte_at :: "u32 list \<Rightarrow> nat \<Rightarrow> u32" where
  "byte_at ws i = shr (wget ws (i div 4)) (24 - 8 * (i mod 4)) AND 255"

text \<open>
  \<open>WordArray\<close>: the words and the number of significant bytes. \<open>sigBytes\<close> is a
  JavaScript number that the library decrements without a check, so it is an \<open>int\<close>.
\<close>

record wordarray =
  words :: "u32 list"
  sigBytes :: int

text \<open>\<open>WordArray.create(words)\<close>, with \<open>sigBytes\<close> left out.\<close>

definition WordArray_create :: "u32 list \<Rightarrow> wordarray" where
  "WordArray_create ws = \<lparr>words = ws, sigBytes = 4 * int (length ws)\<rparr>"

text \<open>
  \<open>clamp\<close> masks the word that holds the last significant byte and sets the length
  of the array to \<open>ceil(sigBytes / 4)\<close>. The library calls it on arrays it has built
  by appending, whose \<open>sigBytes\<close> is not negative (a negative length would make the
  assignment to \<open>length\<close> raise).
\<close>

definition clamp :: "wordarray \<Rightarrow> wordarray" where
  "clamp wa =
     (let c = nat (sigBytes wa);
          ws = wset (words wa) (c div 4)
                 (wget (words wa) (c div 4) AND shl 0xFFFFFFFF (32 - 8 * (c mod 4)));
          n = (c + 3) div 4
      in wa\<lparr>words := take n ws @ replicate (n - length ws) 0\<rparr>)"

text \<open>
  \<open>this.concat(a)\<close>: byte by byte when \<open>this\<close> does not end on a word boundary,
  otherwise word by word (one by one for an array of more than 65535 words, in one
  \<open>push\<close> otherwise).
\<close>

definition WordArray_concat :: "wordarray \<Rightarrow> wordarray \<Rightarrow> wordarray" where
  "WordArray_concat this a =
     (let this1 = clamp this;
          c = words this1;
          e = words a;
          j = nat (sigBytes this1);
          n = sigBytes a;
          c' = (if j mod 4 \<noteq> 0 then
                  fold (\<lambda>k c. or_at c ((j + k) div 4)
                                 (shl (byte_at e k) (24 - 8 * ((j + k) mod 4))))
                       [0..<nat n] c
                else if 65535 < length e then
                  fold (\<lambda>k c. wset c ((j + k) div 4) (wget e (k div 4)))
                       (map (\<lambda>i. 4 * i) [0..<(nat n + 3) div 4]) c
                else c @ e)
      in \<lparr>words = c', sigBytes = sigBytes this1 + n\<rparr>)"

section \<open>Encoders\<close>

datatype error = URIError | Malformed_UTF8 | TypeError

text \<open>\<open>Latin1.parse\<close> and \<open>Latin1.stringify\<close>\<close>

definition Latin1_parse :: "jsstring \<Rightarrow> wordarray" where
  "Latin1_parse a =
     \<lparr>words = fold (\<lambda>j e. or_at e (j div 4) (shl (ucast (a ! j) AND 255) (24 - 8 * (j mod 4))))
                [0..<length a] [],
      sigBytes = int (length a)\<rparr>"

definition Latin1_stringify :: "wordarray \<Rightarrow> jsstring" where
  "Latin1_stringify a = map (\<lambda>j. ucast (byte_at (words a) j)) [0..<nat (sigBytes a)]"

text \<open>
  \<open>unescape(encodeURIComponent(s))\<close>: the UTF-8 bytes of the string, one character per
  byte. \<open>encodeURIComponent\<close> raises \<open>URIError\<close> when a surrogate code unit is not
  half of a pair.
\<close>

definition utf8_bytes :: "nat \<Rightarrow> nat list" where
  "utf8_bytes cp =
     (if cp < 0x80 then [cp]
      else if cp < 0x800 then [0xC0 + cp div 64, 0x80 + cp mod 64]
      else if cp < 0x10000 then [0xE0 + cp div 4096, 0x80 + cp div 64 mod 64, 0x80 + cp mod 64]
      else [0xF0 + cp div 262144, 0x80 + cp div 4096 mod 64, 0x80 + cp div 64 mod 64,
            0x80 + cp mod 64])"

fun utf8_encode :: "nat list \<Rightarrow> error + nat list" where
  "utf8_encode [] = Inr []"
| "utf8_encode (c # cs) =
     (if c < 0xD800 \<or> 0xDFFF < c then
        (case utf8_encode cs of Inl e \<Rightarrow> Inl e | Inr r \<Rightarrow> Inr (utf8_bytes c @ r))
      else if 0xDC00 \<le> c then Inl URIError
      else (case cs of
              [] \<Rightarrow> Inl URIError
            | d # ds \<Rightarrow>
                if 0xDC00 \<le> d \<and> d \<le> 0xDFFF then
                  (case utf8_encode ds of
                     Inl e \<Rightarrow> Inl e
                   | Inr r \<Rightarrow> Inr (utf8_bytes ((c - 0xD800) * 0x400 + (d - 0xDC00) + 0x10000) @ r))
                else Inl URIError))"

text \<open>
  \<open>decodeURIComponent(escape(s))\<close> for a string of bytes: the UTF-16 code units of the
  text the bytes encode. \<open>decodeURIComponent\<close> raises \<open>URIError\<close> on anything but
  well-formed UTF-8 (no stray continuation byte, no truncated or overlong sequence, no
  encoded surrogate, nothing above U+10FFFF).
\<close>

definition is_cont :: "nat \<Rightarrow> bool" where
  "is_cont b \<longleftrightarrow> 0x80 \<le> b \<and> b < 0xC0"

definition utf16_units :: "nat \<Rightarrow> nat list" where
  "utf16_units cp =
     (if cp < 0x10000 then [cp]
      else [0xD800 + (cp - 0x10000) div 0x400, 0xDC00 + (cp - 0x10000) mod 0x400])"

fun utf8_decode :: "nat list \<Rightarrow> error + nat list" where
  "utf8_decode [] = Inr []"
| "utf8_decode (b # bs) =
     (if b < 0x80 then
        (case utf8_decode bs of Inl e \<Rightarrow> Inl e | Inr r \<Rightarrow> Inr (b # r))
      else if 0xC0 \<le> b \<and> b < 0xE0 then
        (case bs of
           b1 # r1 \<Rightarrow>
             (let cp = (b - 0xC0) * 64 + (b1 - 0x80) in
              if is_cont b1 \<and> 0x80 \<le> cp then
                (case utf8_decode r1 of Inl e \<Rightarrow> Inl e | Inr r \<Rightarrow> Inr (utf16_units cp @ r))
              else Inl URIError)
         | _ \<Rightarrow> Inl URIError)
      else if 0xE0 \<le> b \<and> b < 0xF0 then
        (case bs of
           b1 # b2 # r2 \<Rightarrow>
             (let cp = (b - 0xE0) * 4096 + (b1 - 0x80) * 64 + (b2 - 0x80) in
              if is_cont b1 \<and> is_cont b2 \<and> 0x800 \<le> cp \<and> \<not> (0xD800 \<le> cp \<and> cp \<le> 0xDFFF) then
                (case utf8_decode r2 of Inl e \<Rightarrow> Inl e | Inr r \<Rightarrow> Inr (utf16_units cp @ r))
              else Inl URIError)
         | _ \<Rightarrow> Inl URIError)
      else if 0xF0 \<le> b \<and> b < 0xF8 then
        (case bs of
           b1 # b2 # b3 # r3 \<Rightarrow>
             (let cp = (b - 0xF0) * 262144 + (b1 - 0x80) * 4096 + (b2 - 0x80) * 64 + (b3 - 0x80) in
              if is_cont b1 \<and> is_cont b2 \<and> is_cont b3 \<and> 0x10000 \<le> cp \<and> cp \<le> 0x10FFFF then
                (case utf8_decode r3 of Inl e \<Rightarrow> Inl e | Inr r \<Rightarrow> Inr (utf16_units cp @ r))
              else Inl URIError)
         | _ \<Rightarrow> Inl URIError)
      else Inl URIError)"

text \<open>\<open>Utf8.parse\<close> and \<open>Utf8.stringify\<close>\<close>

definition Utf8_parse :: "jsstring \<Rightarrow> error + wordarray" where
  "Utf8_parse s =
     (case utf8_encode (map unat s) of
        Inl e \<Rightarrow> Inl e
      | Inr bs \<Rightarrow> Inr (Latin1_parse (map of_nat bs)))"

definition Utf8_stringify :: "wordarray \<Rightarrow> error + jsstring" where
  "Utf8_stringify a =
     (case utf8_decode (map unat (Latin1_stringify a)) of
        Inl e \<Rightarrow> Inl Malformed_UTF8
      | Inr us \<Rightarrow> Inr (map of_nat us))"

text \<open>\<open>Base64\<close>\<close>

definition Base64_map :: jsstring where
  "Base64_map = js ''ABCDEFGHIJKLMNOPQRSTUVWXYZabcdefghijklmnopqrstuvwxyz0123456789+/=''"

text \<open>\<open>_map.indexOf(ch)\<close> as a 32-bit value: \<open>-1\<close> is the word of all ones.\<close>

definition map_indexOf :: "jschar \<Rightarrow> u32" where
  "map_indexOf ch = (case js_indexOf Base64_map [ch] of None \<Rightarrow> - 1 | Some i \<Rightarrow> of_nat i)"

definition Base64_stringify :: "wordarray \<Rightarrow> jsstring" where
  "Base64_stringify d =
     (let p = nat (sigBytes d);
          l = words (clamp d);
          chars = concat (map (\<lambda>r.
                    let w = shl (byte_at l r) 16 OR shl (byte_at l (r + 1)) 8 OR byte_at l (r + 2)
                    in map (\<lambda>v. Base64_map ! unat (shr w (6 * (3 - v)) AND 63))
                         (takeWhile (\<lambda>v. 4 * r + 3 * v < 4 * p) [0..<4]))
                  (map (\<lambda>i. 3 * i) [0..<(p + 2) div 3]))
      in chars @ replicate ((4 - length chars mod 4) mod 4) (Base64_map ! 64))"

definition Base64_parse :: "jsstring \<Rightarrow> wordarray" where
  "Base64_parse d =
     (let l = (case js_indexOf d [Base64_map ! 64] of None \<Rightarrow> length d | Some t \<Rightarrow> t);
          (t, r) = fold (\<lambda>w (t, r).
                     if w mod 4 \<noteq> 0 then
                       (let v = shl (map_indexOf (d ! (w - 1))) (2 * (w mod 4));
                            b = shr (map_indexOf (d ! w)) (6 - 2 * (w mod 4))
                        in (or_at t (r div 4) (shl (v OR b) (24 - 8 * (r mod 4))), r + 1))
                     else (t, r))
                   [0..<l] ([], 0)
      in \<lparr>words = t, sigBytes = int r\<rparr>)"

section \<open>Block processing\<close>

text \<open>
  \<open>BufferedBlockAlgorithm._process(doFlush)\<close>: the blocks that are ready are processed
  in place, then cut off the front of the buffer and returned. \<open>step\<close> is
  \<open>_doProcessBlock\<close>; it works on the buffer at an offset and on the state \<open>st\<close> of
  the algorithm (the hash, or the chaining block of the cipher mode).
\<close>

definition ceil_div :: "int \<Rightarrow> int \<Rightarrow> int" where
  "ceil_div a b = - ((- a) div b)"

text \<open>\<open>(a / b) | 0\<close> for a positive \<open>b\<close>: the quotient without its fraction.\<close>

definition quot_int :: "int \<Rightarrow> int \<Rightarrow> int" where
  "quot_int a b = (if 0 \<le> a then a div b else - (- a div b))"

definition process ::
  "(u32 list \<Rightarrow> nat \<Rightarrow> 's \<Rightarrow> u32 list \<times> 's) \<Rightarrow> nat \<Rightarrow> int \<Rightarrow> bool
     \<Rightarrow> wordarray \<Rightarrow> 's \<Rightarrow> wordarray \<times> wordarray \<times> 's" where
  "process step blockSize minBufferSize doFlush data st =
     (let dataSigBytes = sigBytes data;
          blockSizeBytes = 4 * int blockSize;
          nBlocksReady = (if doFlush then ceil_div dataSigBytes blockSizeBytes
                          else max (quot_int dataSigBytes blockSizeBytes - minBufferSize) 0);
          nWordsReady = nBlocksReady * int blockSize;
          nBytesReady = min (4 * nWordsReady) dataSigBytes
      in if nWordsReady \<noteq> 0 then
           (let (ws, st') = fold (\<lambda>offset (ws, st). step ws offset st)
                              (map (\<lambda>i. i * blockSize) [0..<nat nBlocksReady]) (words data, st)
            in (\<lparr>words = take (nat nWordsReady) ws, sigBytes = nBytesReady\<rparr>,
                \<lparr>words = drop (nat nWordsReady) ws, sigBytes = dataSigBytes - nBytesReady\<rparr>,
                st'))
         else (\<lparr>words = [], sigBytes = nBytesReady\<rparr>, data, st))"

section \<open>MD5\<close>

text \<open>
  The table \<open>T[i] = (abs(sin(i + 1)) * 2^32) | 0\<close> that the library computes when it is
  loaded, written out.
\<close>

definition MD5_T :: "u32 list" where
  "MD5_T =
    [0xd76aa478, 0xe8c7b756, 0x242070db, 0xc1bdceee, 0xf57c0faf, 0x4787c62a, 0xa8304613, 0xfd469501,
     0x698098d8, 0x8b44f7af, 0xffff5bb1, 0x895cd7be, 0x6b901122, 0xfd987193, 0xa679438e, 0x49b40821,
     0xf61e2562, 0xc040b340, 0x265e5a51, 0xe9b6c7aa, 0xd62f105d, 0x02441453, 0xd8a1e681, 0xe7d3fbc8,
     0x21e1cde6, 0xc33707d6, 0xf4d50d87, 0x455a14ed, 0xa9e3e905, 0xfcefa3f8, 0x676f02d9, 0x8d2a4c8a,
     0xfffa3942, 0x8771f681, 0x6d9d6122, 0xfde5380c, 0xa4beea44, 0x4bdecfa9, 0xf6bb4b60, 0xbebfbc70,
     0x289b7ec6, 0xeaa127fa, 0xd4ef3085, 0x04881d05, 0xd9d4d039, 0xe6db99e5, 0x1fa27cf8, 0xc4ac5665,
     0xf4292244, 0x432aff97, 0xab9423a7, 0xfc93a039, 0x655b59c3, 0x8f0ccc92, 0xffeff47d, 0x85845dd1,
     0x6fa87e4f, 0xfe2ce6e0, 0xa3014314, 0x4e0811a1, 0xf7537e82, 0xbd3af235, 0x2ad7d2bb, 0xeb86d391]"

text \<open>The byte swap \<open>(x << 8 | x >>> 24) & 0x00ff00ff | (x << 24 | x >>> 8) & 0xff00ff00\<close>.\<close>

definition swap_endian :: "u32 \<Rightarrow> u32" where
  "swap_endian x =
     ((shl x 8 OR shr x 24) AND 0x00ff00ff) OR ((shl x 24 OR shr x 8) AND 0xff00ff00)"

definition rotl :: "u32 \<Rightarrow> nat \<Rightarrow> u32" where
  "rotl n s = shl n s OR shr n (32 - s)"

definition FF :: "u32 \<Rightarrow> u32 \<Rightarrow> u32 \<Rightarrow> u32 \<Rightarrow> u32 \<Rightarrow> nat \<Rightarrow> u32 \<Rightarrow> u32" where
  "FF a b c d x s t = rotl (a + ((b AND c) OR (NOT b AND d)) + x + t) s + b"

definition GG :: "u32 \<Rightarrow> u32 \<Rightarrow> u32 \<Rightarrow> u32 \<Rightarrow> u32 \<Rightarrow> nat \<Rightarrow> u32 \<Rightarrow> u32" where
  "GG a b c d x s t = rotl (a + ((b AND d) OR (c AND NOT d)) + x + t) s + b"

definition HH :: "u32 \<Rightarrow> u32 \<Rightarrow> u32 \<Rightarrow> u32 \<Rightarrow> u32 \<Rightarrow> nat \<Rightarrow> u32 \<Rightarrow> u32" where
  "HH a b c d x s t = rotl (a + (b XOR c XOR d) + x + t) s + b"

definition II :: "u32 \<Rightarrow> u32 \<Rightarrow> u32 \<Rightarrow> u32 \<Rightarrow> u32 \<Rightarrow> nat \<Rightarrow> u32 \<Rightarrow> u32" where
  "II a b c d x s t = rotl (a + (c XOR (b OR NOT d)) + x + t) s + b"

text \<open>
  The 64 steps of the source are written out one after the other; step \<open>i\<close> uses the
  message word, the shift and the round function below and \<open>T[i]\<close>, and the four
  variables change roles after each step: \<open>(a, b, c, d)\<close> becomes \<open>(d, a', b, c)\<close>.
\<close>

definition MD5_word_index :: "nat \<Rightarrow> nat" where
  "MD5_word_index i =
     (if i < 16 then i
      else if i < 32 then (5 * i + 1) mod 16
      else if i < 48 then (3 * i + 5) mod 16
      else (7 * i) mod 16)"

definition MD5_shift :: "nat \<Rightarrow> nat" where
  "MD5_shift i =
     (if i < 16 then [7, 12, 17, 22] ! (i mod 4)
      else if i < 32 then [5, 9, 14, 20] ! (i mod 4)
      else if i < 48 then [4, 11, 16, 23] ! (i mod 4)
      else [6, 10, 15, 21] ! (i mod 4))"

definition MD5_step :: "u32 list \<Rightarrow> nat \<Rightarrow> u32 \<times> u32 \<times> u32 \<times> u32 \<Rightarrow> u32 \<times> u32 \<times> u32 \<times> u32" where
  "MD5_step M i = (\<lambda>(a, b, c, d).
     (let f = (if i < 16 then FF else if i < 32 then GG else if i < 48 then HH else II)
      in (d, f a b c d (M ! MD5_word_index i) (MD5_shift i) (MD5_T ! i), b, c)))"

definition MD5_doProcessBlock :: "u32 list \<Rightarrow> nat \<Rightarrow> u32 list \<Rightarrow> u32 list \<times> u32 list" where
  "MD5_doProcessBlock M offset H =
     (let M1 = fold (\<lambda>i M. wset M (offset + i) (swap_endian (wget M (offset + i)))) [0..<16] M;
          blk = map (\<lambda>i. wget M1 (offset + i)) [0..<16];
          (a, b, c, d) = fold (MD5_step blk) [0..<64] (H ! 0, H ! 1, H ! 2, H ! 3)
      in (M1, [H ! 0 + a, H ! 1 + b, H ! 2 + c, H ! 3 + d]))"

text \<open>The hasher: its buffer, the number of bytes appended so far and the hash.\<close>

record hasher =
  hdata :: wordarray
  nDataBytes :: int
  hash :: "u32 list"

definition MD5_reset :: hasher where
  "MD5_reset = \<lparr>hdata = \<lparr>words = [], sigBytes = 0\<rparr>, nDataBytes = 0,
                hash = [0x67452301, 0xefcdab89, 0x98badcfe, 0x10325476]\<rparr>"

definition hasher_append :: "wordarray \<Rightarrow> hasher \<Rightarrow> hasher" where
  "hasher_append a h =
     h\<lparr>hdata := WordArray_concat (hdata h) a, nDataBytes := nDataBytes h + sigBytes a\<rparr>"

definition hasher_process :: "hasher \<Rightarrow> hasher" where
  "hasher_process h =
     (let (done, rest, H) = process MD5_doProcessBlock 16 0 False (hdata h) (hash h)
      in h\<lparr>hdata := rest, hash := H\<rparr>)"

definition MD5_update :: "wordarray \<Rightarrow> hasher \<Rightarrow> hasher" where
  "MD5_update a h = hasher_process (hasher_append a h)"

definition MD5_doFinalize :: "hasher \<Rightarrow> wordarray" where
  "MD5_doFinalize h =
     (let dataWords = words (hdata h);
          nBitsTotal = nDataBytes h * 8;
          nBitsLeft = nat (sigBytes (hdata h) * 8);
          w1 = or_at dataWords (nBitsLeft div 32) (shl 0x80 (24 - nBitsLeft mod 32));
          nBitsTotalH = of_int (nBitsTotal div 0x100000000);
          nBitsTotalL = of_int nBitsTotal;
          w2 = wset w1 (((nBitsLeft + 64) div 512) * 16 + 15) (swap_endian nBitsTotalH);
          w3 = wset w2 (((nBitsLeft + 64) div 512) * 16 + 14) (swap_endian nBitsTotalL);
          h1 = h\<lparr>hdata := \<lparr>words = w3, sigBytes = (int (length w3) + 1) * 4\<rparr>\<rparr>;
          h2 = hasher_process h1
      in \<lparr>words = map swap_endian (hash h2), sigBytes = 16\<rparr>)"

definition MD5_finalize :: "wordarray \<Rightarrow> hasher \<Rightarrow> wordarray" where
  "MD5_finalize a h = MD5_doFinalize (hasher_append a h)"


section \<open>Key derivation\<close>

text \<open>
  \<open>EvpKDF.compute(password, salt)\<close> with one iteration: MD5 digests are appended to
  the derived key until it has \<open>keySize\<close> words. \<open>block\<close> is the previous digest
  (\<open>undefined\<close> in the first round). The password has been turned into bytes by
  \<open>Utf8.parse\<close>, which \<open>_append\<close> applies to a string.
\<close>

definition EvpKDF_round :: "wordarray \<Rightarrow> wordarray \<Rightarrow> wordarray option \<Rightarrow> wordarray" where
  "EvpKDF_round password salt block =
     (let hasher = (case block of None \<Rightarrow> MD5_reset | Some b \<Rightarrow> MD5_update b MD5_reset)
      in MD5_finalize salt (MD5_update password hasher))"

lemma length_wset: "length (wset ws i v) = max (length ws) (Suc i)"
  by (auto simp: wset_def)

lemma length_or_at: "length (or_at ws i v) = max (length ws) (Suc i)"
  by (simp add: or_at_def length_wset)

lemma length_clamp: "length (words (clamp wa)) = (nat (sigBytes wa) + 3) div 4"
  by (auto simp: clamp_def Let_def length_wset)

lemma sigBytes_clamp: "sigBytes (clamp wa) = sigBytes wa"
  by (simp add: clamp_def Let_def)

lemma length_fold_or_at:
  "length (fold (\<lambda>k c. or_at c (f k) (g k)) ks c) = fold (\<lambda>k n. max n (Suc (f k))) ks (length c)"
  by (induction ks arbitrary: c) (simp_all add: length_or_at)

lemma fold_max_ge: "n \<le> fold (\<lambda>k n. max n (Suc (f k))) ks (n::nat)"
proof (induction ks arbitrary: n)
  case Nil
  then show ?case by simp
next
  case (Cons a ks)
  have "n \<le> max n (Suc (f a))" by simp
  also have "\<dots> \<le> fold (\<lambda>k n. max n (Suc (f k))) ks (max n (Suc (f a)))" by (rule Cons.IH)
  finally show ?case by simp
qed

lemma fold_max_mem:
  "k \<in> set ks \<Longrightarrow> Suc (f k) \<le> fold (\<lambda>k n. max n (Suc (f k))) ks (n::nat)"
proof (induction ks arbitrary: n)
  case Nil
  then show ?case by simp
next
  case (Cons a ks)
  show ?case
  proof (cases "k = a")
    case True
    have "max n (Suc (f a)) \<le> fold (\<lambda>k n. max n (Suc (f k))) ks (max n (Suc (f a)))"
      by (rule fold_max_ge)
    with True show ?thesis by simp
  next
    case False
    with Cons show ?thesis by simp
  qed
qed

lemma length_concat_digest:
  assumes "length (words b) = 4" "sigBytes b = 16"
  shows "nat (sigBytes dk) div 4 + 4 \<le> length (words (WordArray_concat dk b))"
proof (cases "nat (sigBytes dk) mod 4 = 0")
  case True
  with assms show ?thesis
    by (simp add: WordArray_concat_def Let_def length_clamp sigBytes_clamp)
next
  case False
  have "Suc ((nat (sigBytes dk) + 15) div 4)
      \<le> fold (\<lambda>k n. max n (Suc ((nat (sigBytes dk) + k) div 4))) [0..<16] ((nat (sigBytes dk) + 3) div 4)"
    by (rule fold_max_mem [where k = 15]) simp
  moreover have "nat (sigBytes dk) div 4 + 4 \<le> Suc ((nat (sigBytes dk) + 15) div 4)"
    by linarith
  ultimately have "nat (sigBytes dk) div 4 + 4
      \<le> fold (\<lambda>k n. max n (Suc ((nat (sigBytes dk) + k) div 4))) [0..<16] ((nat (sigBytes dk) + 3) div 4)"
    by (rule order_trans [rotated])
  with False assms show ?thesis
    by (simp add: WordArray_concat_def Let_def length_clamp sigBytes_clamp length_fold_or_at)
qed

lemma length_MD5_doProcessBlock: "length (snd (MD5_doProcessBlock M offset H)) = 4"
  by (simp add: MD5_doProcessBlock_def Let_def split: prod.splits)

lemma length_hash_fold:
  "bs \<noteq> [] \<Longrightarrow>
   length (snd (fold (\<lambda>offset (ws, st). MD5_doProcessBlock ws offset st) bs (ws0, st0))) = 4"
proof (induction bs arbitrary: ws0 st0 rule: rev_induct)
  case Nil
  then show ?case by simp
next
  case (snoc x xs)
  show ?case
    by (simp add: length_MD5_doProcessBlock split: prod.splits)
qed

lemma length_hash_hasher_process:
  assumes "64 \<le> sigBytes (hdata h)"
  shows "length (hash (hasher_process h)) = 4"
proof -
  have nb: "1 \<le> quot_int (sigBytes (hdata h)) 64"
    using assms by (simp add: quot_int_def)
  then have ne: "map (\<lambda>i. i * 16) [0..<nat (quot_int (sigBytes (hdata h)) 64)] \<noteq> []"
    by simp
  obtain ws st where f: "fold (\<lambda>offset (ws, st). MD5_doProcessBlock ws offset st)
      (map (\<lambda>i. i * 16) [0..<nat (quot_int (sigBytes (hdata h)) 64)]) (words (hdata h), hash h) = (ws, st)"
    by (cases "fold (\<lambda>offset (ws, st). MD5_doProcessBlock ws offset st)
      (map (\<lambda>i. i * 16) [0..<nat (quot_int (sigBytes (hdata h)) 64)]) (words (hdata h), hash h)")
  have "length st = 4"
    using length_hash_fold [OF ne, of "words (hdata h)" "hash h"] f by simp
  moreover have "max (quot_int (sigBytes (hdata h)) 64) 0 = quot_int (sigBytes (hdata h)) 64"
    using nb by simp
  moreover have "quot_int (sigBytes (hdata h)) 64 \<noteq> 0"
    using nb by simp
  ultimately show ?thesis
    using f by (simp add: hasher_process_def process_def Let_def)
qed

lemma length_MD5_doFinalize: "length (words (MD5_doFinalize h)) = 4"
proof -
  define w3 where "w3 =
     wset (wset (or_at (words (hdata h)) (nat (sigBytes (hdata h) * 8) div 32)
                   (shl 0x80 (24 - nat (sigBytes (hdata h) * 8) mod 32)))
              (((nat (sigBytes (hdata h) * 8) + 64) div 512) * 16 + 15)
              (swap_endian (of_int ((nDataBytes h * 8) div 0x100000000))))
       (((nat (sigBytes (hdata h) * 8) + 64) div 512) * 16 + 14)
       (swap_endian (of_int (nDataBytes h * 8)))"
  define h1 where "h1 = h\<lparr>hdata := \<lparr>words = w3, sigBytes = (int (length w3) + 1) * 4\<rparr>\<rparr>"
  have len: "16 \<le> length w3"
    by (simp add: w3_def length_wset le_max_iff_disj)
  then have "64 \<le> sigBytes (hdata h1)"
    by (simp add: h1_def)
  then have "length (hash (hasher_process h1)) = 4"
    by (rule length_hash_hasher_process)
  moreover have "words (MD5_doFinalize h) = map swap_endian (hash (hasher_process h1))"
    unfolding MD5_doFinalize_def Let_def h1_def w3_def by simp
  ultimately show ?thesis by simp
qed

lemma length_MD5_finalize: "length (words (MD5_finalize a h)) = 4"
  by (simp add: MD5_finalize_def length_MD5_doFinalize)

lemma sigBytes_MD5_finalize: "sigBytes (MD5_finalize a h) = 16"
  by (simp add: MD5_finalize_def MD5_doFinalize_def Let_def)

function EvpKDF_loop ::
  "wordarray \<Rightarrow> wordarray \<Rightarrow> nat \<Rightarrow> wordarray option \<Rightarrow> wordarray \<Rightarrow> wordarray" where
  "EvpKDF_loop password salt keySize block derivedKey =
     (if length (words derivedKey) < keySize then
        (let block' = EvpKDF_round password salt block
         in EvpKDF_loop password salt keySize (Some block') (WordArray_concat derivedKey block'))
      else derivedKey)"
  by pat_completeness auto
termination
proof (relation "measure (\<lambda>(password, salt, keySize, block, derivedKey).
          (if length (words derivedKey) < keySize then 1 else 0)
          + nat (4 * int keySize - sigBytes derivedKey))", goal_cases)
  case 1
  show ?case by simp
next
  case (2 password salt keySize block derivedKey block')
  have b: "length (words block') = 4" "sigBytes block' = 16"
    using 2(2) by (simp_all add: EvpKDF_round_def length_MD5_finalize sigBytes_MD5_finalize)
  have s: "sigBytes (WordArray_concat derivedKey block') = sigBytes derivedKey + 16"
    using b by (simp add: WordArray_concat_def Let_def sigBytes_clamp)
  have l: "nat (sigBytes derivedKey) div 4 + 4 \<le> length (words (WordArray_concat derivedKey block'))"
    using b by (rule length_concat_digest)
  show ?case
  proof (cases "sigBytes derivedKey < 4 * int keySize")
    case True
    then have "nat (4 * int keySize - (sigBytes derivedKey + 16))
        < nat (4 * int keySize - sigBytes derivedKey)" by linarith
    then show ?thesis using 2(1) s by auto
  next
    case False
    then have "keySize \<le> nat (sigBytes derivedKey) div 4" by linarith
    with l have "\<not> length (words (WordArray_concat derivedKey block')) < keySize" by linarith
    then show ?thesis using 2(1) s False by simp
  qed
qed

definition EvpKDF_compute :: "nat \<Rightarrow> wordarray \<Rightarrow> wordarray \<Rightarrow> wordarray" where
  "EvpKDF_compute keySize password salt =
     (EvpKDF_loop password salt keySize None \<lparr>words = [], sigBytes = 0\<rparr>)
       \<lparr>sigBytes := 4 * int keySize\<rparr>"

text \<open>
  \<open>kdf.OpenSSL.execute(password, keySize, ivSize, salt)\<close>: the key is the derived
  array with \<open>sigBytes\<close> set to the key size (its words are kept), the IV is made of
  the words after the key.
\<close>

definition kdf_execute :: "wordarray \<Rightarrow> nat \<Rightarrow> nat \<Rightarrow> wordarray \<Rightarrow> wordarray \<times> wordarray" where
  "kdf_execute password keySize ivSize salt =
     (let key = EvpKDF_compute (keySize + ivSize) password salt;
          iv = \<lparr>words = drop keySize (words key), sigBytes = 4 * int ivSize\<rparr>
      in (key\<lparr>sigBytes := 4 * int keySize\<rparr>, iv))"

text \<open>\<open>WordArray.random(8)\<close>, from the two numbers that \<open>Math.random\<close> delivers.\<close>

definition WordArray_random8 :: "u32 \<times> u32 \<Rightarrow> wordarray" where
  "WordArray_random8 rnd = \<lparr>words = [fst rnd, snd rnd], sigBytes = 8\<rparr>"


section \<open>AES\<close>

text \<open>
  The lookup tables are computed when the library is loaded: the doubling table \<open>d\<close>,
  then a walk through the field that fills the S-box, its inverse and the eight
  \<open>SUB_MIX\<close> tables entry by entry.
\<close>

definition AES_d :: "u32 list" where
  "AES_d = map (\<lambda>i. if i < 128 then shl (of_nat i) 1 else shl (of_nat i) 1 XOR 0x11b) [0..<256]"

record aes_tables =
  t_SBOX :: "u32 list"
  t_INV_SBOX :: "u32 list"
  t_SUB_MIX_0 :: "u32 list"
  t_SUB_MIX_1 :: "u32 list"
  t_SUB_MIX_2 :: "u32 list"
  t_SUB_MIX_3 :: "u32 list"
  t_INV_SUB_MIX_0 :: "u32 list"
  t_INV_SUB_MIX_1 :: "u32 list"
  t_INV_SUB_MIX_2 :: "u32 list"
  t_INV_SUB_MIX_3 :: "u32 list"

definition tab :: "u32 list \<Rightarrow> u32 \<Rightarrow> u32" where
  "tab t x = wget t (unat x)"

definition tables_step :: "u32 \<times> u32 \<times> aes_tables \<Rightarrow> u32 \<times> u32 \<times> aes_tables" where
  "tables_step = (\<lambda>(x, xi, T).
     (let sx0 = xi XOR shl xi 1 XOR shl xi 2 XOR shl xi 3 XOR shl xi 4;
          sx = shr sx0 8 XOR (sx0 AND 255) XOR 0x63;
          x2 = tab AES_d x;
          x4 = tab AES_d x2;
          x8 = tab AES_d x4;
          t = (tab AES_d sx * 0x101) XOR (sx * 0x1010100);
          t' = (x8 * 0x1010101) XOR (x4 * 0x10001) XOR (x2 * 0x101) XOR (x * 0x1010100);
          T' = \<lparr>t_SBOX = wset (t_SBOX T) (unat x) sx,
                t_INV_SBOX = wset (t_INV_SBOX T) (unat sx) x,
                t_SUB_MIX_0 = wset (t_SUB_MIX_0 T) (unat x) (shl t 24 OR shr t 8),
                t_SUB_MIX_1 = wset (t_SUB_MIX_1 T) (unat x) (shl t 16 OR shr t 16),
                t_SUB_MIX_2 = wset (t_SUB_MIX_2 T) (unat x) (shl t 8 OR shr t 24),
                t_SUB_MIX_3 = wset (t_SUB_MIX_3 T) (unat x) t,
                t_INV_SUB_MIX_0 = wset (t_INV_SUB_MIX_0 T) (unat sx) (shl t' 24 OR shr t' 8),
                t_INV_SUB_MIX_1 = wset (t_INV_SUB_MIX_1 T) (unat sx) (shl t' 16 OR shr t' 16),
                t_INV_SUB_MIX_2 = wset (t_INV_SUB_MIX_2 T) (unat sx) (shl t' 8 OR shr t' 24),
                t_INV_SUB_MIX_3 = wset (t_INV_SUB_MIX_3 T) (unat sx) t'\<rparr>
      in if x = 0 then (1, 1, T')
         else (x2 XOR tab AES_d (tab AES_d (tab AES_d (x8 XOR x2))),
               xi XOR tab AES_d (tab AES_d xi), T')))"

definition AES_tables :: aes_tables where
  "AES_tables = snd (snd (fold (\<lambda>i. tables_step) [0..<256]
     (0, 0, \<lparr>t_SBOX = [], t_INV_SBOX = [], t_SUB_MIX_0 = [], t_SUB_MIX_1 = [], t_SUB_MIX_2 = [],
             t_SUB_MIX_3 = [], t_INV_SUB_MIX_0 = [], t_INV_SUB_MIX_1 = [], t_INV_SUB_MIX_2 = [],
             t_INV_SUB_MIX_3 = []\<rparr>)))"

definition SBOX :: "u32 list" where "SBOX = t_SBOX AES_tables"
definition INV_SBOX :: "u32 list" where "INV_SBOX = t_INV_SBOX AES_tables"
definition SUB_MIX_0 :: "u32 list" where "SUB_MIX_0 = t_SUB_MIX_0 AES_tables"
definition SUB_MIX_1 :: "u32 list" where "SUB_MIX_1 = t_SUB_MIX_1 AES_tables"
definition SUB_MIX_2 :: "u32 list" where "SUB_MIX_2 = t_SUB_MIX_2 AES_tables"
definition SUB_MIX_3 :: "u32 list" where "SUB_MIX_3 = t_SUB_MIX_3 AES_tables"
definition INV_SUB_MIX_0 :: "u32 list" where "INV_SUB_MIX_0 = t_INV_SUB_MIX_0 AES_tables"
definition INV_SUB_MIX_1 :: "u32 list" where "INV_SUB_MIX_1 = t_INV_SUB_MIX_1 AES_tables"
definition INV_SUB_MIX_2 :: "u32 list" where "INV_SUB_MIX_2 = t_INV_SUB_MIX_2 AES_tables"
definition INV_SUB_MIX_3 :: "u32 list" where "INV_SUB_MIX_3 = t_INV_SUB_MIX_3 AES_tables"

definition RCON :: "u32 list" where
  "RCON = [0x00, 0x01, 0x02, 0x04, 0x08, 0x10, 0x20, 0x40, 0x80, 0x1b, 0x36]"

text \<open>
  The four bytes of a word through a table of bytes:
  \<open>(S[t >>> 24] << 24) | (S[(t >>> 16) & 0xff] << 16) | (S[(t >>> 8) & 0xff] << 8) | S[t & 0xff]\<close>
\<close>

definition sub_word :: "u32 list \<Rightarrow> u32 \<Rightarrow> u32" where
  "sub_word S t = shl (tab S (shr t 24)) 24 OR shl (tab S (shr t 16 AND 255)) 16
                    OR shl (tab S (shr t 8 AND 255)) 8 OR tab S (t AND 255)"

text \<open>
  \<open>AES._doReset\<close>: the key schedule and the schedule for decryption. The key size is
  \<open>key.sigBytes / 4\<close> words; the key of the password-based cipher always has 32 bytes.
\<close>

definition AES_keySchedule :: "wordarray \<Rightarrow> u32 list" where
  "AES_keySchedule key =
     (let keyWords = words key;
          keySize = nat (sigBytes key) div 4;
          nRounds = keySize + 6;
          ksRows = (nRounds + 1) * 4
      in fold (\<lambda>ksRow keySchedule.
           if ksRow < keySize then wset keySchedule ksRow (wget keyWords ksRow)
           else
             (let t = wget keySchedule (ksRow - 1);
                  t' = (if ksRow mod keySize = 0 then
                          sub_word SBOX (shl t 8 OR shr t 24) XOR shl (wget RCON (ksRow div keySize)) 24
                        else if 6 < keySize \<and> ksRow mod keySize = 4 then sub_word SBOX t
                        else t)
              in wset keySchedule ksRow (wget keySchedule (ksRow - keySize) XOR t')))
         [0..<ksRows] [])"

definition AES_invKeySchedule :: "wordarray \<Rightarrow> u32 list" where
  "AES_invKeySchedule key =
     (let keySchedule = AES_keySchedule key;
          keySize = nat (sigBytes key) div 4;
          nRounds = keySize + 6;
          ksRows = (nRounds + 1) * 4
      in fold (\<lambda>invKsRow invKeySchedule.
           (let ksRow = ksRows - invKsRow;
                t = (if invKsRow mod 4 \<noteq> 0 then wget keySchedule ksRow
                     else wget keySchedule (ksRow - 4))
            in wset invKeySchedule invKsRow
                 (if invKsRow < 4 \<or> ksRow \<le> 4 then t
                  else tab INV_SUB_MIX_0 (tab SBOX (shr t 24))
                       XOR tab INV_SUB_MIX_1 (tab SBOX (shr t 16 AND 255))
                       XOR tab INV_SUB_MIX_2 (tab SBOX (shr t 8 AND 255))
                       XOR tab INV_SUB_MIX_3 (tab SBOX (t AND 255)))))
         [0..<ksRows] [])"

text \<open>\<open>AES._doCryptBlock\<close>. The state is the four words \<open>s0, s1, s2, s3\<close>.\<close>

definition mix_word ::
  "u32 list \<Rightarrow> u32 list \<Rightarrow> u32 list \<Rightarrow> u32 list \<Rightarrow> u32 \<Rightarrow> u32 \<Rightarrow> u32 \<Rightarrow> u32 \<Rightarrow> u32" where
  "mix_word M0 M1 M2 M3 a b c d =
     tab M0 (shr a 24) XOR tab M1 (shr b 16 AND 255) XOR tab M2 (shr c 8 AND 255)
       XOR tab M3 (d AND 255)"

definition crypt_round ::
  "u32 list \<Rightarrow> u32 list \<Rightarrow> u32 list \<Rightarrow> u32 list \<Rightarrow> u32 list \<Rightarrow> nat
     \<Rightarrow> u32 \<times> u32 \<times> u32 \<times> u32 \<Rightarrow> u32 \<times> u32 \<times> u32 \<times> u32" where
  "crypt_round keySchedule M0 M1 M2 M3 round = (\<lambda>(s0, s1, s2, s3).
     (mix_word M0 M1 M2 M3 s0 s1 s2 s3 XOR wget keySchedule (4 * round),
      mix_word M0 M1 M2 M3 s1 s2 s3 s0 XOR wget keySchedule (4 * round + 1),
      mix_word M0 M1 M2 M3 s2 s3 s0 s1 XOR wget keySchedule (4 * round + 2),
      mix_word M0 M1 M2 M3 s3 s0 s1 s2 XOR wget keySchedule (4 * round + 3)))"

definition last_word :: "u32 list \<Rightarrow> u32 \<Rightarrow> u32 \<Rightarrow> u32 \<Rightarrow> u32 \<Rightarrow> u32" where
  "last_word S a b c d =
     shl (tab S (shr a 24)) 24 OR shl (tab S (shr b 16 AND 255)) 16
       OR shl (tab S (shr c 8 AND 255)) 8 OR tab S (d AND 255)"

definition doCryptBlock ::
  "nat \<Rightarrow> u32 list \<Rightarrow> u32 list \<Rightarrow> u32 list \<Rightarrow> u32 list \<Rightarrow> u32 list \<Rightarrow> u32 list
     \<Rightarrow> u32 list \<Rightarrow> nat \<Rightarrow> u32 list" where
  "doCryptBlock nRounds keySchedule M0 M1 M2 M3 S M offset =
     (let s = (wget M offset XOR wget keySchedule 0,
               wget M (offset + 1) XOR wget keySchedule 1,
               wget M (offset + 2) XOR wget keySchedule 2,
               wget M (offset + 3) XOR wget keySchedule 3);
          (s0, s1, s2, s3) = fold (crypt_round keySchedule M0 M1 M2 M3) [1..<nRounds] s;
          t0 = last_word S s0 s1 s2 s3 XOR wget keySchedule (4 * nRounds);
          t1 = last_word S s1 s2 s3 s0 XOR wget keySchedule (4 * nRounds + 1);
          t2 = last_word S s2 s3 s0 s1 XOR wget keySchedule (4 * nRounds + 2);
          t3 = last_word S s3 s0 s1 s2 XOR wget keySchedule (4 * nRounds + 3)
      in wset (wset (wset (wset M offset t0) (offset + 1) t1) (offset + 2) t2) (offset + 3) t3)"

text \<open>The cipher after \<open>_doReset\<close>: the number of rounds and the two schedules.\<close>

record aes =
  nRounds :: nat
  keySchedule :: "u32 list"
  invKeySchedule :: "u32 list"

definition AES_doReset :: "wordarray \<Rightarrow> aes" where
  "AES_doReset key =
     \<lparr>nRounds = nat (sigBytes key) div 4 + 6,
      keySchedule = AES_keySchedule key,
      invKeySchedule = AES_invKeySchedule key\<rparr>"

definition AES_encryptBlock :: "aes \<Rightarrow> u32 list \<Rightarrow> nat \<Rightarrow> u32 list" where
  "AES_encryptBlock c M offset =
     doCryptBlock (nRounds c) (keySchedule c) SUB_MIX_0 SUB_MIX_1 SUB_MIX_2 SUB_MIX_3 SBOX M offset"

definition swap_1_3 :: "u32 list \<Rightarrow> nat \<Rightarrow> u32 list" where
  "swap_1_3 M offset =
     (let t = wget M (offset + 1);
          M1 = wset M (offset + 1) (wget M (offset + 3))
      in wset M1 (offset + 3) t)"

definition AES_decryptBlock :: "aes \<Rightarrow> u32 list \<Rightarrow> nat \<Rightarrow> u32 list" where
  "AES_decryptBlock c M offset =
     swap_1_3
       (doCryptBlock (nRounds c) (invKeySchedule c) INV_SUB_MIX_0 INV_SUB_MIX_1 INV_SUB_MIX_2
          INV_SUB_MIX_3 INV_SBOX (swap_1_3 M offset) offset)
       offset"

section \<open>Cipher block chaining and padding\<close>

text \<open>
  The state of the mode is the block to be combined with the next one: the IV at first,
  then \<open>_prevBlock\<close>. \<open>slice\<close> copies four words of the buffer.
\<close>

definition slice4 :: "u32 list \<Rightarrow> nat \<Rightarrow> u32 list" where
  "slice4 ws offset = map (\<lambda>i. wget ws (offset + i)) [0..<4]"

definition xorBlock :: "u32 list \<Rightarrow> nat \<Rightarrow> u32 list \<Rightarrow> u32 list" where
  "xorBlock ws offset block =
     fold (\<lambda>i ws. wset ws (offset + i) (wget ws (offset + i) XOR wget block i)) [0..<4] ws"

definition CBC_Encryptor_processBlock :: "aes \<Rightarrow> u32 list \<Rightarrow> nat \<Rightarrow> u32 list \<Rightarrow> u32 list \<times> u32 list" where
  "CBC_Encryptor_processBlock c ws offset block =
     (let ws1 = AES_encryptBlock c (xorBlock ws offset block) offset
      in (ws1, slice4 ws1 offset))"

definition CBC_Decryptor_processBlock :: "aes \<Rightarrow> u32 list \<Rightarrow> nat \<Rightarrow> u32 list \<Rightarrow> u32 list \<times> u32 list" where
  "CBC_Decryptor_processBlock c ws offset block =
     (let thisBlock = slice4 ws offset;
          ws1 = xorBlock (AES_decryptBlock c ws offset) offset block
      in (ws1, thisBlock))"

definition Pkcs7_pad :: "wordarray \<Rightarrow> nat \<Rightarrow> wordarray" where
  "Pkcs7_pad data blockSize =
     (let blockSizeBytes = blockSize * 4;
          nPaddingBytes = blockSizeBytes - nat (sigBytes data) mod blockSizeBytes;
          n = of_nat nPaddingBytes;
          paddingWord = shl n 24 OR shl n 16 OR shl n 8 OR n;
          paddingWords = replicate ((nPaddingBytes + 3) div 4) paddingWord
      in WordArray_concat data \<lparr>words = paddingWords, sigBytes = int nPaddingBytes\<rparr>)"

definition Pkcs7_unpad :: "wordarray \<Rightarrow> wordarray" where
  "Pkcs7_unpad data =
     data\<lparr>sigBytes := sigBytes data
        - uint (wget (words data) (nat ((sigBytes data - 1) mod 0x100000000) div 4) AND 255)\<rparr>"

text \<open>
  \<open>finalize\<close> of the encryptor and of the decryptor, on a fresh buffer. A message is a
  string; \<open>finalize\<close> appends it unless it is empty.
\<close>

definition Encryptor_finalize :: "aes \<Rightarrow> u32 list \<Rightarrow> jsstring \<Rightarrow> error + wordarray" where
  "Encryptor_finalize c iv message =
     (case (if message = [] then Inr \<lparr>words = [], sigBytes = 0\<rparr>
            else (case Utf8_parse message of
                    Inl e \<Rightarrow> Inl e
                  | Inr m \<Rightarrow> Inr (WordArray_concat \<lparr>words = [], sigBytes = 0\<rparr> m))) of
        Inl e \<Rightarrow> Inl e
      | Inr data \<Rightarrow>
          Inr (fst (process (CBC_Encryptor_processBlock c) 4 0 True (Pkcs7_pad data 4) iv)))"

definition Decryptor_finalize :: "aes \<Rightarrow> u32 list \<Rightarrow> wordarray \<Rightarrow> wordarray" where
  "Decryptor_finalize c iv ciphertext =
     (let data = WordArray_concat \<lparr>words = [], sigBytes = 0\<rparr> ciphertext
      in Pkcs7_unpad (fst (process (CBC_Decryptor_processBlock c) 4 1 True data iv)))"

section \<open>The password-based cipher and its transport format\<close>

definition OpenSSL_stringify :: "wordarray \<Rightarrow> wordarray \<Rightarrow> jsstring" where
  "OpenSSL_stringify ciphertext salt =
     Base64_stringify
       (WordArray_concat (WordArray_concat (WordArray_create [0x53616c74, 0x65645f5f]) salt)
          ciphertext)"

definition OpenSSL_parse :: "jsstring \<Rightarrow> wordarray \<times> wordarray option" where
  "OpenSSL_parse str =
     (let ciphertext = Base64_parse str;
          ciphertextWords = words ciphertext
      in if wget ciphertextWords 0 = 0x53616c74 \<and> wget ciphertextWords 1 = 0x65645f5f then
           (\<lparr>words = drop 4 ciphertextWords, sigBytes = sigBytes ciphertext - 16\<rparr>,
            Some (WordArray_create (take 2 (drop 2 ciphertextWords))))
         else (ciphertext, None))"

text \<open>
  \<open>CryptoJS.AES.encrypt(message, password)\<close> followed by the conversion to a string
  that \<open>+=\<close> performs. \<open>rnd\<close> stands for the two random numbers of the salt.
\<close>

definition AES_encrypt :: "jsstring \<Rightarrow> jsstring \<Rightarrow> u32 \<times> u32 \<Rightarrow> error + jsstring" where
  "AES_encrypt message password rnd =
     (case Utf8_parse password of
        Inl e \<Rightarrow> Inl e
      | Inr pw \<Rightarrow>
          (let salt = WordArray_random8 rnd;
               (key, iv) = kdf_execute pw 8 4 salt
           in case Encryptor_finalize (AES_doReset key) (words iv) message of
                Inl e \<Rightarrow> Inl e
              | Inr ciphertext \<Rightarrow> Inr (OpenSSL_stringify ciphertext salt)))"

text \<open>
  \<open>CryptoJS.AES.decrypt(ciphertext, password)\<close>, on a string. When the text carries no
  salt, the key derivation draws a random one.
\<close>

definition AES_decrypt :: "jsstring \<Rightarrow> jsstring \<Rightarrow> u32 \<times> u32 \<Rightarrow> error + wordarray" where
  "AES_decrypt str password rnd =
     (let (ciphertext, salt_opt) = OpenSSL_parse str;
          salt = (case salt_opt of None \<Rightarrow> WordArray_random8 rnd | Some s \<Rightarrow> s)
      in case Utf8_parse password of
           Inl e \<Rightarrow> Inl e
         | Inr pw \<Rightarrow>
             (let (key, iv) = kdf_execute pw 8 4 salt
              in Inr (Decryptor_finalize (AES_doReset key) (words iv) ciphertext)))"

section \<open>SHA-256\<close>















section \<open>The session passphrase\<close>


section \<open>The keydown listener\<close>

record key_event =
  keyCode :: nat
  key :: jsstring

text \<open>
  The globals the listener works on: the flag \<open>lastKeyWasStopKey\<close> (set: armed), the
  flag \<open>send\<close>, the values of the text areas of the page and the passphrase.
\<close>

record interceptor =
  lastKeyWasStopKey :: bool
  send :: bool
  textareas :: "jsstring list"
  passphrase :: jsstring

text \<open>
  What a call of the listener leaves behind: the globals, whether
  \<open>event.preventDefault()\<close> was called, and the exception that ended the call, if any.
\<close>

record keydown_result =
  after :: interceptor
  prevented :: bool
  thrown :: "error option"

definition keydown :: "key_event \<Rightarrow> u32 \<times> u32 \<Rightarrow> interceptor \<Rightarrow> keydown_result" where
  "keydown event rnd st =
     (let st1 = (if keyCode event = 17 then st\<lparr>lastKeyWasStopKey := False\<rparr> else st)
      in if lastKeyWasStopKey st1 \<and> \<not> (keyCode event = 13 \<or> keyCode event = 8) then
           \<lparr>after = st1, prevented = True, thrown = None\<rparr>
         else if key event = stopkey then
           (let st2 = st1\<lparr>lastKeyWasStopKey := True, send := True\<rparr>
            in case textareas st2 of
                 [] \<Rightarrow> \<lparr>after = st2, prevented = False, thrown = Some TypeError\<rparr>
               | textToEncrypt # others \<Rightarrow>
                   (case AES_encrypt textToEncrypt (passphrase st2) rnd of
                      Inl e \<Rightarrow> \<lparr>after = st2, prevented = False, thrown = Some e\<rparr>
                    | Inr transport \<Rightarrow>
                        \<lparr>after = st2\<lparr>textareas := (stopkey @ transport) # others\<rparr>,
                         prevented = False, thrown = None\<rparr>))
         else \<lparr>after = st1\<lparr>lastKeyWasStopKey := False\<rparr>, prevented = False, thrown = None\<rparr>)"

section \<open>Rendering a decrypted message\<close>

text \<open>The emoji map \<open>replacementarr\<close>: codes and their markup, in the order of insertion.\<close>

type_synonym emoji_map = "(jsstring \<times> jsstring) list"

text \<open>\<open>replacementarr[k] = v\<close>\<close>

fun assign :: "jsstring \<Rightarrow> jsstring \<Rightarrow> emoji_map \<Rightarrow> emoji_map" where
  "assign k v [] = [(k, v)]"
| "assign k v ((k', v') # m) = (if k = k' then (k, v) # m else (k', v') # assign k v m)"

definition default_emojis :: emoji_map where
  \<open>default_emojis =
     [(js '':joy:'',
       js ''<img src="/assets/cae9e3b02af6e987442df2953de026fc.svg" aria-label=":joy:" alt=":joy:" draggable="false" class="emoji jumboable">''),
      (js '':frowning2:'',
       js ''<img src="/assets/b61c4e14e90e796e36f0d10792fcc505.svg" aria-label=":frowning2:" alt=":frowning2:" draggable="false" class="emoji jumboable">''),
      (js '':money_mouth:'',
       js ''<img src="/assets/5cdb67d23b259628f475e663ef9907e7.svg" aria-label=":money_mouth:" alt=":money_mouth:" draggable="false" class="emoji jumboable">''),
      (js '':smile:'',
       js ''<img src="/assets/f0835a46b501ae0a182874b003fdbb65.svg" aria-label=":smile:" alt=":smile:" draggable="false" class="emoji jumboable">''),
      (js '':sunglasses:'',
       js ''<img src="/assets/d0df7bf4acd843defa4e417cf767a574.svg" aria-label=":sunglasses:" alt=":sunglasses:" draggable="false" class="emoji jumboable">''),
      (js '':heart_eyes:'',
       js ''<img src="/assets/7e4f6dcf32845bfa865cf17491faf867.svg" aria-label=":heart_eyes:" alt=":heart_eyes:" draggable="false" class="emoji jumboable">''),
      (js '':heart:'',
       js ''<img src="/assets/dcbf6274f0ce0f393d064a72db2c8913.svg" aria-label=":heart:" alt=":heart:" draggable="false" class="emoji jumboable">''),
      (js '':sob:'',
       js ''<img src="/assets/4dc13fd52f691020a1308c5b6cbc6f49.svg" aria-label=":sob:" alt=":sob:" draggable="false" class="emoji jumboable">''),
      (js '':thumbsup:'',
       js ''<img src="/assets/2af915882260fdb89538d1610e1d9baa.svg" aria-label=":thumbsup:" alt=":thumbsup:" draggable="false" class="emoji jumboable">''),
      (js '':ok_hand:'',
       js ''<img src="/assets/b6f700d4bc253abdb5ad576917b756d8.svg" aria-label=":ok_hand:" alt=":ok_hand:" draggable="false" class="emoji jumboable">''),
      (js '':ingves_guld:'',
       js ''<img aria-label=":ingves_guld:" src="https://cdn.discordapp.com/emojis/586594745711591425.png?v=1" alt=":ingves_guld:" draggable="false" class="emoji jumboable">''),
      (js '':ingves_concerned:'',
       js ''<img aria-label=":ingves_concerned:" src="https://cdn.discordapp.com/emojis/586595195701821475.png?v=1" alt=":ingves_concerned:" draggable="false" class="emoji jumboable">''),
      (js '':cry:'',
       js ''<img src="/assets/2a6e66e7de157c4051fb7abf7d8b0063.svg" aria-label=":cry:" alt=":cry:" draggable="false" class="emoji jumboable">''),
      (js '':thinking:'',
       js ''<img src="/assets/53ef346458017da2062aca5c7955946b.svg" aria-label=":thinking:" alt=":thinking:" draggable="false" class="emoji jumboable">''),
      (js '':broken_heart:'',
       js ''<img src="/assets/8fee3f6705505729fea8c7379934d794.svg" aria-label=":broken_heart:" alt=":broken_heart:" draggable="false" class="emoji jumboable">''),
      (js '':grimacing:'',
       js ''<img src="/assets/be0923fd964bff1a6ea77c14fe227a63.svg" aria-label=":grimacing:" alt=":grimacing:" draggable="false" class="emoji jumboable">''),
      (js '':pensive:'',
       js ''<img src="/assets/f1f76882104c8724124954b6edfed6d4.svg" aria-label=":pensive:" alt=":pensive:" draggable="false" class="emoji jumboable">''),
      (js '':money_with_wings:'',
       js ''<img src="/assets/630828f0eaa647bf465b3b903b0dbc5f.svg" aria-label=":money_with_wings:" alt=":money_with_wings:" draggable="false" class="emoji jumboable">''),
      (js '':moneybag:'',
       js ''<img src="/assets/ccebe0b729ff7530c5e37dbbd9f9938c.svg" aria-label=":moneybag:" alt=":moneybag:" draggable="false" class="emoji jumboable">''),
      (js '':clown:'',
       js ''<img src="/assets/1beee7912bb5016975747a3086794957.svg" aria-label=":clown:" alt=":clown:" draggable="false" class="emoji jumboable">''),
      (js '':smiley:'',
       js ''<img src="/assets/b731b88b6459090c02b8d1e31a552c5a.svg" aria-label=":smiley:" alt=":smiley:" draggable="false" class="emoji jumboable">''),
      (js '':scream:'',
       js ''<img src="/assets/9bd8b85559466379744360f8c9841f39.svg" aria-label=":scream:" alt=":scream:" draggable="false" class="emoji jumboable">''),
      (js '':wave:'',
       js ''<img src="/assets/593c4a3437fbb5b89fbb148f7b96424d.svg" aria-label=":wave:" alt=":wave:" draggable="false" class="emoji jumboable">'')]\<close>

text \<open>
  \<open>loadEmojis\<close>: the stored map, if there is one, replaces the current map; then the
  built-in codes are assigned.
\<close>

definition loadEmojis :: "emoji_map option \<Rightarrow> emoji_map \<Rightarrow> emoji_map" where
  "loadEmojis stored replacementarr =
     fold (\<lambda>(k, v). assign k v) default_emojis
       (case stored of None \<Rightarrow> replacementarr | Some m \<Rightarrow> m)"

text \<open>The markup for one word of a message that contains \<open>https\<close>.\<close>

definition classify_word :: "jsstring \<Rightarrow> jsstring" where
  \<open>classify_word decryptedWord =
     (if js_includes decryptedWord (js ''youtube.com/watch'') then
        (let watchcode = elem_str (js_split decryptedWord (js ''?v='')) 1
         in js ''<a  href="'' @ decryptedWord @ js ''">'' @ decryptedWord
              @ js ''</a><br/><br/><iframe src="https://www.youtube.com/embed/'' @ watchcode
              @ js ''" style="width: 99%; max-width:700px; height:400px;">'')
      else if js_includes decryptedWord (js ''bitchute.com/video/'') then
        (let watchcode = elem_str (js_split decryptedWord (js ''.com/video/'')) 1
         in js ''<a href="'' @ decryptedWord @ js ''">'' @ decryptedWord
              @ js ''</a><br/><br/><iframe src="https://www.bitchute.com/embed/'' @ watchcode
              @ js ''" style="width: 99%; max-width:700px; height:400px;">'')
      else if js_includes decryptedWord (js ''https'') then
        js ''<a href="'' @ decryptedWord @ js ''">'' @ decryptedWord
          @ js ''</a><br/><br/><img alt="" src="'' @ decryptedWord
          @ js ''" style="max-height: 600px; max-width: 600px;">''
      else decryptedWord)\<close>

text \<open>
  The URL step: the flag \<open>containsImage\<close> and the new text. A text without \<open>https\<close>
  is left as it is.
\<close>

definition classify_urls :: "jsstring \<Rightarrow> bool \<times> jsstring" where
  "classify_urls decrypted =
     (if js_includes decrypted (js ''https'') then
        (let d1 = js_replace decrypted (js ''https://'') (js '' https://'');
             d2 = js_replace d1 (js ''= https://'') (js ''=https://'');
             decryptedWords = js_split d2 (js '' '')
         in (True, fold (\<lambda>decryptedWord acc. acc @ js '' '' @ classify_word decryptedWord)
                     decryptedWords []))
      else (False, decrypted))"

text \<open>The loop over the emoji map, and the emoji step with its test for a colon.\<close>

definition emoji_loop :: "emoji_map \<Rightarrow> jsstring \<Rightarrow> jsstring" where
  "emoji_loop replacementarr decrypted =
     fold (\<lambda>(k, v) d. js_replace d k v) replacementarr decrypted"

definition substitute_emojis :: "emoji_map \<Rightarrow> jsstring \<Rightarrow> jsstring" where
  "substitute_emojis replacementarr decrypted =
     (if 1 < length (js_split decrypted (js '':'')) then emoji_loop replacementarr decrypted
      else decrypted)"

text \<open>
  \<open>s.replace(/<\/?[^>]+(>|$)/g, "")\<close>. The expression matches at a \<open><\<close> that is
  followed by at least one character other than \<open>>\<close>, and then takes everything up
  to and including the next \<open>>\<close>, or up to the end of the text when there is none.
\<close>

function strip_tags :: "jsstring \<Rightarrow> jsstring" where
  "strip_tags [] = []"
| "strip_tags (c # cs) =
     (if c = 0x3C \<and> cs \<noteq> [] \<and> hd cs \<noteq> 0x3E
      then strip_tags (drop 1 (dropWhile (\<lambda>x. x \<noteq> 0x3E) cs))
      else c # strip_tags cs)"
  by pat_completeness auto
termination
  by (relation "measure length")
    (auto intro: le_less_trans [OF diff_le_self] le_imp_less_Suc length_dropWhile_le)

text \<open>The classes added to the container of a message for the size of its text.\<close>

definition size_classes :: "jsstring \<Rightarrow> jsstring" where
  "size_classes cleanText =
     (if 80 < length cleanText then js '' widermessage'' else [])
       @ (if 200 < length cleanText then js '' evenwidermessage'' else [])"

section \<open>The decrypt pass\<close>

text \<open>
  A message element (class \<open>markup-2BOw-j\<close>): its \<open>innerHTML\<close>, its text colour, and
  its fourth ancestor, the container, if it has one. The containers carry the class
  names; two messages may have the same container.
\<close>

record msg_node =
  innerHTML :: jsstring
  color :: jsstring
  container :: "nat option"

record page =
  nodes :: "msg_node list"
  className :: "nat \<Rightarrow> jsstring"

definition fallback :: jsstring where
  "fallback = js ''[could not be decrypted]''"

text \<open>The two lines that decode: \<open>CryptoJS.AES.decrypt\<close>, then \<open>toString(Utf8)\<close>.\<close>

definition decode :: "jsstring \<Rightarrow> jsstring \<Rightarrow> u32 \<times> u32 \<Rightarrow> error + jsstring" where
  "decode encrypted pass rnd =
     (case AES_decrypt encrypted pass rnd of
        Inl e \<Rightarrow> Inl e
      | Inr decrypted \<Rightarrow> Utf8_stringify decrypted)"

definition set_innerHTML :: "nat \<Rightarrow> jsstring \<Rightarrow> page \<Rightarrow> page" where
  "set_innerHTML i html pg = pg\<lparr>nodes := (nodes pg)[i := (nodes pg ! i)\<lparr>innerHTML := html\<rparr>]\<rparr>"

text \<open>
  The branch for a text that decoded to something non-empty. Reading the container of an
  element without a fourth ancestor raises \<open>TypeError\<close>; the handler of the pass
  catches it and writes the fallback text.
\<close>

definition render_node :: "emoji_map \<Rightarrow> jsstring \<Rightarrow> nat \<Rightarrow> page \<Rightarrow> page" where
  "render_node replacementarr decrypted i pg =
     (let (containsImage, d1) = classify_urls decrypted;
          d2 = substitute_emojis replacementarr d1;
          pg1 = pg\<lparr>nodes := (nodes pg)[i := (nodes pg ! i)\<lparr>innerHTML := d2, color := js ''#fff''\<rparr>]\<rparr>
      in case container (nodes pg ! i) of
           None \<Rightarrow> set_innerHTML i fallback pg1
         | Some parentcontainer \<Rightarrow>
             pg1\<lparr>className := (className pg1)(parentcontainer :=
                    className pg1 parentcontainer @ js '' encryptedMessageContainer''
                      @ (if containsImage then js '' containsImage'' else [])
                      @ size_classes (strip_tags d2))\<rparr>)"

text \<open>The body of the loop of \<open>decryptMessages\<close> for the element at index \<open>i\<close>.\<close>

definition decrypt_node :: "jsstring \<Rightarrow> emoji_map \<Rightarrow> u32 \<times> u32 \<Rightarrow> nat \<Rightarrow> page \<Rightarrow> page" where
  "decrypt_node pass replacementarr rnd i pg =
     (let encrypted = innerHTML (nodes pg ! i)
      in if encrypted \<noteq> [] \<and> hd encrypted = 0xA7 then
           (case decode (butlast (drop 1 encrypted)) pass rnd of
              Inl e \<Rightarrow> set_innerHTML i fallback pg
            | Inr decrypted \<Rightarrow>
                if length decrypted < 1 then set_innerHTML i fallback pg
                else render_node replacementarr decrypted i pg)
         else pg)"

text \<open>
  \<open>decryptMessages\<close>: the elements are visited from the last to the first. \<open>rnd i\<close>
  stands for the random numbers drawn while element \<open>i\<close> is decoded.
\<close>

definition decryptMessages :: "jsstring \<Rightarrow> emoji_map \<Rightarrow> (nat \<Rightarrow> u32 \<times> u32) \<Rightarrow> page \<Rightarrow> page" where
  "decryptMessages pass replacementarr rnd pg =
     fold (\<lambda>i pg. decrypt_node pass replacementarr (rnd i) i pg) (rev [0..<length (nodes pg)]) pg"

section \<open>Properties\<close>

subsection \<open>String helpers\<close>

lemma js_indexOf_starts:
  "js_indexOf s p = Some i \<Longrightarrow> starts_with (drop i s) p"
proof (induction s arbitrary: i)
  case Nil
  then show ?case by (simp split: if_splits)
next
  case (Cons c cs)
  then show ?case by (auto split: if_splits)
qed

lemma starts_with_append: "starts_with (p @ r) p"
  by (induction p) auto

lemma js_indexOf_prefix: "js_indexOf (p @ r) p = Some 0"
  by (cases "p @ r") (use starts_with_append[of p r] in auto)

lemma js_replace_strip_prefix: "js_replace (p @ r) p [] = r"
  by (simp add: js_replace_def js_indexOf_prefix)

lemma split_from_no_sep:
  "c \<notin> set a \<Longrightarrow> split_from [c] cur a = [rev cur @ a]"
  by (induction a arbitrary: cur) auto

lemma split_from_segment:
  "c \<notin> set a \<Longrightarrow> split_from [c] cur (a @ c # r) = (rev cur @ a) # split_from [c] [] r"
  by (induction a arbitrary: cur) auto

lemma js_slash: "js ''/'' = [0x2F]"
  by (simp add: js_def)

subsection \<open>Occurrences of a search string, and splitting at slashes\<close>

lemma starts_with_iff: "starts_with s p \<longleftrightarrow> (\<exists>r. s = p @ r)"
  by (induction s p rule: starts_with.induct) auto

lemma js_indexOf_None: "js_indexOf s p = None \<longleftrightarrow> (\<forall>a b. s \<noteq> a @ p @ b)"
proof (induction s)
  case Nil
  then show ?case by auto
next
  case (Cons c cs)
  show ?case
  proof (cases "starts_with (c # cs) p")
    case True
    then obtain r where "c # cs = p @ r" by (auto simp: starts_with_iff)
    then have "c # cs = [] @ p @ r" by simp
    then have "\<not> (\<forall>a b. c # cs \<noteq> a @ p @ b)" by blast
    moreover have "js_indexOf (c # cs) p \<noteq> None" using True by simp
    ultimately show ?thesis by blast
  next
    case False
    have "(\<forall>a b. c # cs \<noteq> a @ p @ b) \<longleftrightarrow> (\<forall>a b. cs \<noteq> a @ p @ b)"
    proof
      assume h: "\<forall>a b. c # cs \<noteq> a @ p @ b"
      show "\<forall>a b. cs \<noteq> a @ p @ b"
      proof (intro allI notI)
        fix a b assume "cs = a @ p @ b"
        then have "c # cs = (c # a) @ p @ b" by simp
        with h show False by blast
      qed
    next
      assume h: "\<forall>a b. cs \<noteq> a @ p @ b"
      show "\<forall>a b. c # cs \<noteq> a @ p @ b"
      proof (intro allI notI)
        fix a b assume e: "c # cs = a @ p @ b"
        show False
        proof (cases a)
          case Nil
          with e have "starts_with (c # cs) p" by (auto simp: starts_with_iff)
          with False show False by simp
        next
          case (Cons x xs)
          with e have "cs = xs @ p @ b" by simp
          with h show False by blast
        qed
      qed
    qed
    with False Cons show ?thesis by simp
  qed
qed

lemma js_indexOf_Some:
  "js_indexOf s p = Some i \<Longrightarrow>
     (\<exists>b. s = take i s @ p @ b \<and> i \<le> length s) \<and> (\<forall>a b. s = a @ p @ b \<longrightarrow> i \<le> length a)"
proof (induction s arbitrary: i)
  case Nil
  then show ?case by (auto split: if_splits)
next
  case (Cons c cs)
  show ?case
  proof (cases "starts_with (c # cs) p")
    case True
    with Cons.prems have "i = 0" by simp
    with True show ?thesis by (auto simp: starts_with_iff)
  next
    case False
    with Cons.prems obtain j where j: "js_indexOf cs p = Some j" "i = Suc j" by auto
    from Cons.IH [OF j(1)] obtain b where b: "cs = take j cs @ p @ b" "j \<le> length cs"
      and m: "\<forall>a b. cs = a @ p @ b \<longrightarrow> j \<le> length a" by blast
    have 1: "c # cs = take i (c # cs) @ p @ b \<and> i \<le> length (c # cs)"
      using b j(2) by simp
    have 2: "\<forall>a b. c # cs = a @ p @ b \<longrightarrow> i \<le> length a"
    proof (intro allI impI)
      fix a b' assume e: "c # cs = a @ p @ b'"
      show "i \<le> length a"
      proof (cases a)
        case Nil
        with e have "starts_with (c # cs) p" by (auto simp: starts_with_iff)
        with False show ?thesis by simp
      next
        case (Cons x xs)
        with e have "cs = xs @ p @ b'" by simp
        with m have "j \<le> length xs" by blast
        with Cons j(2) show ?thesis by simp
      qed
    qed
    from 1 2 show ?thesis by blast
  qed
qed

lemma js_replace_absent: "(\<forall>a b. s \<noteq> a @ p @ b) \<Longrightarrow> js_replace s p r = s"
  using js_indexOf_None [of s p] by (simp add: js_replace_def)

lemma js_replace_first:
  assumes "s = pre @ p @ post" and "\<forall>a b. s = a @ p @ b \<longrightarrow> length pre \<le> length a"
  shows "js_replace s p [] = pre @ post"
proof -
  have "js_indexOf s p \<noteq> None"
    using assms(1) js_indexOf_None [of s p] by blast
  then obtain i where i: "js_indexOf s p = Some i" by auto
  from js_indexOf_Some [OF i] obtain b where b: "s = take i s @ p @ b" "i \<le> length s"
    and m: "\<forall>a b. s = a @ p @ b \<longrightarrow> i \<le> length a" by blast
  from m assms(1) have "i \<le> length pre" by blast
  moreover from assms(2) b(1) have "length pre \<le> length (take i s)" by blast
  ultimately have "i = length pre" using b(2) by simp
  then show ?thesis using i assms(1) by (simp add: js_replace_def)
qed

lemma split_slash_join:
  "segs \<noteq> [] \<Longrightarrow> \<forall>s \<in> set segs. 0x2F \<notin> set s \<Longrightarrow> 0x2F \<notin> set cur \<Longrightarrow>
   split_from [0x2F] cur (slash_join segs) = (rev cur @ hd segs) # tl segs"
proof (induction segs arbitrary: cur rule: slash_join.induct)
  case 1
  then show ?case by simp
next
  case (2 s)
  then show ?case by (simp add: split_from_no_sep)
next
  case (3 s t r)
  have "split_from [0x2F] cur (s @ 0x2F # slash_join (t # r))
      = (rev cur @ s) # split_from [0x2F] [] (slash_join (t # r))"
    using 3(3) by (simp add: split_from_segment)
  also have "split_from [0x2F] [] (slash_join (t # r)) = t # r"
    using 3(1) [of "[]"] 3(3) by simp
  finally show ?case by simp
qed

lemma split_from_shape:
  "split_from [c] cur s \<noteq> [] \<and> (c \<notin> set cur \<longrightarrow> (\<forall>x \<in> set (split_from [c] cur s). c \<notin> set x))"
  by (induction "[c]" cur s rule: split_from.induct) auto

lemma slash_join_split:
  "slash_join (split_from [0x2F] cur s) = rev cur @ s"
proof (induction "[0x2F::jschar]" cur s rule: split_from.induct)
  case (1 cur)
  then show ?case by simp
next
  case (2 cur c cs)
  show ?case
  proof (cases "c = 0x2F")
    case True
    obtain y ys where y: "split_from [0x2F] [] cs = y # ys"
      using split_from_shape [of "0x2F" "[]" cs] by (cases "split_from [0x2F] [] cs") auto
    with True 2 show ?thesis by simp
  next
    case False
    with 2 show ?thesis by simp
  qed
qed

lemma snd_scope: "snd (setPassphrase_scope loc) = js_replace loc (js ''https://'') []"
  by (simp add: setPassphrase_scope_def Let_def)

lemma fst_scope:
  "fst (setPassphrase_scope loc) =
     elem_str (js_split (snd (setPassphrase_scope loc)) (js ''/'')) 0 @ js ''/''
       @ elem_str (js_split (snd (setPassphrase_scope loc)) (js ''/'')) 1 @ js ''/''
       @ elem_str (js_split (snd (setPassphrase_scope loc)) (js ''/'')) 2"
  by (simp add: setPassphrase_scope_def Let_def)

lemma js_split_slash_join:
  assumes "segs \<noteq> []" "\<forall>s \<in> set segs. 0x2F \<notin> set s"
  shows "js_split (slash_join segs) (js ''/'') = segs"
  using split_slash_join [OF assms, of "[]"] assms(1) by (simp add: js_split_def js_slash)

subsection \<open>Scope identifiers of derivation and of storage\<close>

text \<open>
  Claim C9, as stated, against the code. The claim says that for every location both
  sides strip the scheme prefix, join the first three path segments of the stripped
  location for the broad identifier and use the stripped location as the narrow one.
  The code removes the first occurrence of the text \<open>https://\<close> wherever it stands, and
  nothing else: for the location \<open>http://x/https://y/z\<close> its keys are \<open>http://x\<close> and
  \<open>http://x/y/z\<close>, not \<open>x/https:/\<close> and \<open>x/https://y/z\<close>.
\<close>

theorem scope_counterexample:
  "setPassphrase_scope (js ''http://x/https://y/z'') = (js ''http://x'', js ''http://x/y/z'')
   \<and> spec_scope (js ''http://x/https://y/z'') = (js ''x/https:/'', js ''x/https://y/z'')
   \<and> setPassphrase_scope (js ''http://x/https://y/z'') \<noteq> spec_scope (js ''http://x/https://y/z'')"
proof -
  have a: "setPassphrase_scope (js ''http://x/https://y/z'') = (js ''http://x'', js ''http://x/y/z'')"
    by (simp add: setPassphrase_scope_def js_def js_replace_def js_split_def elem_str_def)
  have b: "spec_scope (js ''http://x/https://y/z'') = (js ''x/https:/'', js ''x/https://y/z'')"
    by (simp add: spec_scope_def strip_scheme_def js_def js_split_def)
  have c: "js ''http://x'' \<noteq> js ''x/https:/''"
    by (simp add: js_def)
  from a b c show ?thesis by simp
qed

text \<open>
  Claim C9, amended. For every location string, the popup (\<open>loadKeys\<close>) and the
  injected script (\<open>setPassphrase\<close>) compute the same pair of keys. The narrow key is
  the location with the first occurrence of the text \<open>https://\<close> removed, wherever it
  stands (so for a location that starts with it, the rest of the location), and the
  location itself when the text does not occur. The narrow key is a sequence of pieces
  without a slash joined by slashes; the broad key is the first
  three of these pieces joined by slashes, with the text \<open>undefined\<close> in place of a
  missing second or third piece. Secrets that the popup accepts for a location are the
  secrets that \<open>setPassphrase\<close> reads at the same location: the channel secret
  always, the server secret whenever the two keys differ.
\<close>

theorem scope_keys:
  "loadKeys_scope loc = setPassphrase_scope loc
   \<and> (\<forall>pre post. loc = pre @ js ''https://'' @ post
          \<and> (\<forall>a b. loc = a @ js ''https://'' @ b \<longrightarrow> length pre \<le> length a)
        \<longrightarrow> snd (setPassphrase_scope loc) = pre @ post)
   \<and> ((\<forall>a b. loc \<noteq> a @ js ''https://'' @ b) \<longrightarrow> snd (setPassphrase_scope loc) = loc)
   \<and> (\<exists>segs. segs \<noteq> [] \<and> (\<forall>s \<in> set segs. 0x2F \<notin> set s)
          \<and> snd (setPassphrase_scope loc) = slash_join segs)
   \<and> (\<forall>segs. segs \<noteq> [] \<and> (\<forall>s \<in> set segs. 0x2F \<notin> set s)
          \<and> snd (setPassphrase_scope loc) = slash_join segs
        \<longrightarrow> fst (setPassphrase_scope loc) =
              hd segs @ [0x2F] @ (if 1 < length segs then segs ! 1 else js ''undefined'')
                @ [0x2F] @ (if 2 < length segs then segs ! 2 else js ''undefined''))
   \<and> (5 < length (strip_ws si) \<and> 5 < length (strip_ws ci)
        \<longrightarrow> snd (setPassphrase_secrets loc (storage (popup_setKeys loc si ci p))) = strip_ws ci)
   \<and> (5 < length (strip_ws si) \<and> fst (setPassphrase_scope loc) \<noteq> snd (setPassphrase_scope loc)
        \<longrightarrow> fst (setPassphrase_secrets loc (storage (popup_setKeys loc si ci p))) = strip_ws si)"
proof (intro conjI)
  show "loadKeys_scope loc = setPassphrase_scope loc"
    by (simp add: loadKeys_scope_def setPassphrase_scope_def)
  show "\<forall>pre post. loc = pre @ js ''https://'' @ post
          \<and> (\<forall>a b. loc = a @ js ''https://'' @ b \<longrightarrow> length pre \<le> length a)
        \<longrightarrow> snd (setPassphrase_scope loc) = pre @ post"
    using js_replace_first [of loc _ "js ''https://''"] by (simp add: snd_scope)
  show "(\<forall>a b. loc \<noteq> a @ js ''https://'' @ b) \<longrightarrow> snd (setPassphrase_scope loc) = loc"
    by (simp add: snd_scope js_replace_absent)
  show "\<exists>segs. segs \<noteq> [] \<and> (\<forall>s \<in> set segs. 0x2F \<notin> set s)
          \<and> snd (setPassphrase_scope loc) = slash_join segs"
  proof (intro exI conjI)
    note sh = split_from_shape [of "0x2F::jschar" "[]" "snd (setPassphrase_scope loc)"]
    show "split_from [0x2F::jschar] [] (snd (setPassphrase_scope loc)) \<noteq> []"
      using sh by simp
    show "\<forall>s \<in> set (split_from [0x2F::jschar] [] (snd (setPassphrase_scope loc))). 0x2F \<notin> set s"
      using sh by simp
    show "snd (setPassphrase_scope loc) = slash_join (split_from [0x2F] [] (snd (setPassphrase_scope loc)))"
      by (simp add: slash_join_split)
  qed
  show "\<forall>segs. segs \<noteq> [] \<and> (\<forall>s \<in> set segs. 0x2F \<notin> set s)
          \<and> snd (setPassphrase_scope loc) = slash_join segs
        \<longrightarrow> fst (setPassphrase_scope loc) =
              hd segs @ [0x2F] @ (if 1 < length segs then segs ! 1 else js ''undefined'')
                @ [0x2F] @ (if 2 < length segs then segs ! 2 else js ''undefined'')"
  proof (intro allI impI, elim conjE)
    fix segs :: "jsstring list"
    assume h: "segs \<noteq> []" "\<forall>s \<in> set segs. 0x2F \<notin> set s"
      "snd (setPassphrase_scope loc) = slash_join segs"
    have "js_split (snd (setPassphrase_scope loc)) (js ''/'') = segs"
      using js_split_slash_join [OF h(1,2)] h(3) by simp
    then show "fst (setPassphrase_scope loc) =
              hd segs @ [0x2F] @ (if 1 < length segs then segs ! 1 else js ''undefined'')
                @ [0x2F] @ (if 2 < length segs then segs ! 2 else js ''undefined'')"
      using h(1) by (simp add: fst_scope elem_str_def js_slash hd_conv_nth)
  qed
  obtain su cu where sc: "setPassphrase_scope loc = (su, cu)" by (cases "setPassphrase_scope loc")
  then have lk: "loadKeys_scope loc = (su, cu)"
    by (simp add: loadKeys_scope_def setPassphrase_scope_def)
  show "5 < length (strip_ws si) \<and> 5 < length (strip_ws ci)
        \<longrightarrow> snd (setPassphrase_secrets loc (storage (popup_setKeys loc si ci p))) = strip_ws ci"
    by (auto simp: setPassphrase_secrets_def popup_setKeys_def sc lk setKeys_def saveChrome_def Let_def)
  show "5 < length (strip_ws si) \<and> fst (setPassphrase_scope loc) \<noteq> snd (setPassphrase_scope loc)
        \<longrightarrow> fst (setPassphrase_secrets loc (storage (popup_setKeys loc si ci p))) = strip_ws si"
    by (auto simp: setPassphrase_secrets_def popup_setKeys_def sc lk setKeys_def saveChrome_def
        alert_def Let_def)
qed

theorem scope_keys_witness:
  "setPassphrase_scope (js ''http://x/https://y/z'') = (js ''http://x'', js ''http://x/y/z'')
   \<and> loadKeys_scope (js ''discord.com/channels/1/2'')
       = (js ''discord.com/channels/1'', js ''discord.com/channels/1/2'')
   \<and> setPassphrase_secrets (js ''https://discord.com/channels/1/2'')
         (storage (popup_setKeys (js ''https://discord.com/channels/1/2'') (js '' sec ret1 '')
            (js ''chan nel42'') \<lparr>storage = Map.empty, alerts = [], info = []\<rparr>))
       = (js ''secret1'', js ''channel42'')"
proof -
  let ?pat = "js ''https://''"
  \<comment> \<open>a location with the text inside it\<close>
  let ?l1 = "js ''http://x/https://y/z''"
  note t1 = scope_keys [of ?l1 "[]" "[]" "\<lparr>storage = Map.empty, alerts = [], info = []\<rparr>"]
  have i1: "js_indexOf ?l1 ?pat = Some 9" by (simp add: js_def)
  have d1: "?l1 = js ''http://x/'' @ ?pat @ js ''y/z''" by (simp add: js_def)
  have len1: "length (js ''http://x/'') = 9" by (simp add: js_def)
  have m1: "\<forall>a b. ?l1 = a @ ?pat @ b \<longrightarrow> length (js ''http://x/'') \<le> length a"
    using js_indexOf_Some [OF i1, THEN conjunct2] unfolding len1 .
  have s1: "snd (setPassphrase_scope ?l1) = js ''http://x/'' @ js ''y/z''"
    using t1 [THEN conjunct2, THEN conjunct1] d1 m1 by blast
  have j1: "js ''http://x/'' @ js ''y/z'' = slash_join [js ''http:'', [], js ''x'', js ''y'', js ''z'']"
    by (simp add: js_def)
  have f1: "fst (setPassphrase_scope ?l1) = js ''http://x''"
    using t1 [THEN conjunct2, THEN conjunct2, THEN conjunct2, THEN conjunct2, THEN conjunct1,
        rule_format, of "[js ''http:'', [], js ''x'', js ''y'', js ''z'']"] s1 j1
    by (simp add: js_def)
  have r1: "setPassphrase_scope ?l1 = (js ''http://x'', js ''http://x/y/z'')"
    using s1 f1 by (simp add: prod_eq_iff js_def)
  \<comment> \<open>a location without the text\<close>
  let ?l2 = "js ''discord.com/channels/1/2''"
  note t2 = scope_keys [of ?l2 "[]" "[]" "\<lparr>storage = Map.empty, alerts = [], info = []\<rparr>"]
  have i2: "js_indexOf ?l2 ?pat = None" by (simp add: js_def)
  have n2: "\<forall>a b. ?l2 \<noteq> a @ ?pat @ b"
    using i2 by (simp add: js_indexOf_None)
  have s2: "snd (setPassphrase_scope ?l2) = ?l2"
    using t2 [THEN conjunct2, THEN conjunct2, THEN conjunct1] n2 by blast
  have j2: "?l2 = slash_join [js ''discord.com'', js ''channels'', js ''1'', js ''2'']"
    by (simp add: js_def)
  have f2: "fst (setPassphrase_scope ?l2) = js ''discord.com/channels/1''"
    using t2 [THEN conjunct2, THEN conjunct2, THEN conjunct2, THEN conjunct2, THEN conjunct1,
        rule_format, of "[js ''discord.com'', js ''channels'', js ''1'', js ''2'']"] s2 j2
    by (simp add: js_def)
  have r2: "loadKeys_scope ?l2 = (js ''discord.com/channels/1'', js ''discord.com/channels/1/2'')"
    using t2 [THEN conjunct1] s2 f2 by (simp add: prod_eq_iff)
  \<comment> \<open>a location that starts with the text, and the secrets stored for it\<close>
  let ?l3 = "js ''https://discord.com/channels/1/2''"
  let ?ini = "\<lparr>storage = Map.empty, alerts = [], info = []\<rparr> :: popup"
  note t3 = scope_keys [of ?l3 "js '' sec ret1 ''" "js ''chan nel42''" ?ini]
  have d3: "?l3 = [] @ ?pat @ ?l2" by (simp add: js_def)
  have s3: "snd (setPassphrase_scope ?l3) = [] @ ?l2"
    using t3 [THEN conjunct2, THEN conjunct1] d3 by (metis list.size(3) le0)
  have f3: "fst (setPassphrase_scope ?l3) = js ''discord.com/channels/1''"
    using t3 [THEN conjunct2, THEN conjunct2, THEN conjunct2, THEN conjunct2, THEN conjunct1,
        rule_format, of "[js ''discord.com'', js ''channels'', js ''1'', js ''2'']"] s3 j2
    by (simp add: js_def)
  have ne: "fst (setPassphrase_scope ?l3) \<noteq> snd (setPassphrase_scope ?l3)"
    using s3 f3 by (simp add: js_def)
  have w: "strip_ws (js '' sec ret1 '') = js ''secret1''" "strip_ws (js ''chan nel42'') = js ''channel42''"
    by (simp_all add: strip_ws_def js_def is_js_space_def)
  have l: "5 < length (js ''secret1'')" "5 < length (js ''channel42'')"
    by (simp_all add: js_def)
  have c3: "snd (setPassphrase_secrets ?l3 (storage (popup_setKeys ?l3 (js '' sec ret1 '')
            (js ''chan nel42'') ?ini))) = js ''channel42''"
    using t3 [THEN conjunct2, THEN conjunct2, THEN conjunct2, THEN conjunct2, THEN conjunct2,
        THEN conjunct1] w l by simp
  have k3: "fst (setPassphrase_secrets ?l3 (storage (popup_setKeys ?l3 (js '' sec ret1 '')
            (js ''chan nel42'') ?ini))) = js ''secret1''"
    using t3 [THEN conjunct2, THEN conjunct2, THEN conjunct2, THEN conjunct2, THEN conjunct2,
        THEN conjunct2] w l ne by simp
  have r3: "setPassphrase_secrets ?l3 (storage (popup_setKeys ?l3 (js '' sec ret1 '')
            (js ''chan nel42'') ?ini)) = (js ''secret1'', js ''channel42'')"
    using c3 k3 by (simp add: prod_eq_iff)
  from r1 r2 r3 show ?thesis by blast
qed

subsection \<open>Validation of the secrets at configuration time\<close>

text \<open>
  Claim C10. \<open>setKeys\<close> strips all white space from both inputs first. Nothing is
  stored unless the stripped server secret has more than 5 code units; then the server
  secret is stored, and the channel secret is stored as well only if its stripped text
  has more than 5 code units. A non-empty stripped channel secret of fewer than 6 code
  units raises the channel alert and is not stored; an empty one raises no alert and is
  not stored. A server secret that is too short raises the server alert.
\<close>

theorem setKeys_validation:
  "storage (setKeys su cu si ci p) =
     (if length (strip_ws si) > 5
      then (if length (strip_ws ci) > 5
            then (storage p)(su \<mapsto> strip_ws si, cu \<mapsto> strip_ws ci)
            else (storage p)(su \<mapsto> strip_ws si))
      else storage p)
   \<and> alerts (setKeys su cu si ci p) =
     (if length (strip_ws si) > 5
      then (if strip_ws ci \<noteq> [] \<and> length (strip_ws ci) < 6
            then alerts p @ [js ''Your channel password is too short'']
            else alerts p)
      else alerts p @ [js ''Your server password is too short''])
   \<and> (\<forall>c \<in> set (strip_ws s). \<not> is_js_space c)
   \<and> strip_ws s = filter (\<lambda>c. \<not> is_js_space c) s"
  by (auto simp: setKeys_def saveChrome_def alert_def Let_def strip_ws_def)

theorem setKeys_validation_witness:
  "storage (setKeys (js ''a/b/c'') (js ''a/b/c/d'') (js '' sec ret1 '') (js ''x y'')
      \<lparr>storage = Map.empty, alerts = [], info = []\<rparr>)
     = [js ''a/b/c'' \<mapsto> js ''secret1'']
   \<and> alerts (setKeys (js ''a/b/c'') (js ''a/b/c/d'') (js '' sec ret1 '') (js ''x y'')
      \<lparr>storage = Map.empty, alerts = [], info = []\<rparr>)
     = [js ''Your channel password is too short'']"
proof -
  have s: "strip_ws (js '' sec ret1 '') = js ''secret1''"
    by (simp add: strip_ws_def js_def is_js_space_def)
  have c: "strip_ws (js ''x y'') = js ''xy''"
    by (simp add: strip_ws_def js_def is_js_space_def)
  have l: "length (js ''secret1'') = 7" "length (js ''xy'') = 2" "js ''xy'' \<noteq> []"
    by (simp_all add: js_def)
  note th = setKeys_validation [of "js ''a/b/c''" "js ''a/b/c/d''" "js '' sec ret1 ''" "js ''x y''"
        "\<lparr>storage = Map.empty, alerts = [], info = []\<rparr>" "[]"]
  have a: "storage (setKeys (js ''a/b/c'') (js ''a/b/c/d'') (js '' sec ret1 '') (js ''x y'')
      \<lparr>storage = Map.empty, alerts = [], info = []\<rparr>) = [js ''a/b/c'' \<mapsto> js ''secret1'']"
    using th [THEN conjunct1] by (simp add: s c l)
  have b: "alerts (setKeys (js ''a/b/c'') (js ''a/b/c/d'') (js '' sec ret1 '') (js ''x y'')
      \<lparr>storage = Map.empty, alerts = [], info = []\<rparr>) = [js ''Your channel password is too short'']"
    using th [THEN conjunct2, THEN conjunct1] by (simp add: s c l)
  from a b show ?thesis by simp
qed

subsection \<open>The keydown listener\<close>

text \<open>
  Claim C6, as stated, against the code: while armed, the control key is a key other
  than the trigger, the commit key and the delete key, and its keypress is not
  suppressed.
\<close>

theorem armed_control_not_suppressed:
  "\<not> prevented (keydown \<lparr>keyCode = 17, key = js ''Control''\<rparr> (0, 0)
        \<lparr>lastKeyWasStopKey = True, send = True, textareas = [js ''staged''], passphrase = js ''k''\<rparr>)
   \<and> js ''Control'' \<noteq> stopkey \<and> (17::nat) \<noteq> 13 \<and> (17::nat) \<noteq> 8"
  by (simp add: keydown_def js_def stopkey_def)

text \<open>
  Claim C6, amended. While the listener is armed, every keypress whose key code is not
  that of the commit key (13), the delete key (8) or the control key (17) is suppressed,
  the trigger key included, and leaves the globals as they are (still armed). A keypress
  of the commit key, of the control key or of the delete key that does not carry the
  trigger character is not suppressed and resets the machine to idle, changing nothing
  else.
\<close>

theorem armed_keys:
  "lastKeyWasStopKey st \<longrightarrow>
     (keyCode ev \<notin> {13, 8, 17} \<longrightarrow>
        keydown ev rnd st = \<lparr>after = st, prevented = True, thrown = None\<rparr>)
     \<and> (keyCode ev \<in> {13, 8, 17} \<and> key ev \<noteq> stopkey \<longrightarrow>
        keydown ev rnd st
          = \<lparr>after = st\<lparr>lastKeyWasStopKey := False\<rparr>, prevented = False, thrown = None\<rparr>)"
  by (auto simp: keydown_def)

theorem armed_keys_witness:
  "keydown \<lparr>keyCode = 65, key = js ''a''\<rparr> (0, 0)
      \<lparr>lastKeyWasStopKey = True, send = True, textareas = [js ''staged''], passphrase = js ''k''\<rparr>
     = \<lparr>after = \<lparr>lastKeyWasStopKey = True, send = True, textareas = [js ''staged''],
                  passphrase = js ''k''\<rparr>,
        prevented = True, thrown = None\<rparr>
   \<and> keydown \<lparr>keyCode = 13, key = js ''Enter''\<rparr> (0, 0)
      \<lparr>lastKeyWasStopKey = True, send = True, textareas = [js ''staged''], passphrase = js ''k''\<rparr>
     = \<lparr>after = \<lparr>lastKeyWasStopKey = False, send = True, textareas = [js ''staged''],
                  passphrase = js ''k''\<rparr>,
        prevented = False, thrown = None\<rparr>"
proof -
  let ?st = "\<lparr>lastKeyWasStopKey = True, send = True, textareas = [js ''staged''],
               passphrase = js ''k''\<rparr>"
  have a: "lastKeyWasStopKey ?st" by simp
  have b: "js ''Enter'' \<noteq> stopkey" by (simp add: js_def stopkey_def)
  have "keydown \<lparr>keyCode = 65, key = js ''a''\<rparr> (0, 0) ?st
      = \<lparr>after = ?st, prevented = True, thrown = None\<rparr>"
    using armed_keys [of ?st "\<lparr>keyCode = 65, key = js ''a''\<rparr>" "(0, 0)"] a by simp
  moreover have "keydown \<lparr>keyCode = 13, key = js ''Enter''\<rparr> (0, 0) ?st
      = \<lparr>after = ?st\<lparr>lastKeyWasStopKey := False\<rparr>, prevented = False, thrown = None\<rparr>"
    using armed_keys [of ?st "\<lparr>keyCode = 13, key = js ''Enter''\<rparr>" "(0, 0)"] a b by simp
  ultimately show ?thesis by simp
qed

subsection \<open>Encryption of the input on the trigger key\<close>







subsection \<open>Texts without the characters that the rendering steps look for\<close>

lemma starts_with_hd: "p \<noteq> [] \<Longrightarrow> hd p \<notin> set s \<Longrightarrow> \<not> starts_with s p"
  by (cases p; cases s) auto

lemma js_indexOf_absent_char: "p \<noteq> [] \<Longrightarrow> hd p \<notin> set s \<Longrightarrow> js_indexOf s p = None"
  by (induction s) (auto simp: starts_with_hd)

lemma js_includes_absent_char: "p \<noteq> [] \<Longrightarrow> hd p \<notin> set s \<Longrightarrow> \<not> js_includes s p"
  by (simp add: js_includes_def js_indexOf_absent_char)

lemma strip_tags_no_tag: "0x3C \<notin> set t \<Longrightarrow> strip_tags t = t"
  by (induction t) auto

lemma strip_tags_tag:
  assumes "0x3C \<notin> set a" "tag \<noteq> []" "0x3E \<notin> set tag"
  shows "strip_tags (a @ 0x3C # tag @ 0x3E # b) = a @ strip_tags b"
  using assms(1)
proof (induction a)
  case Nil
  have "dropWhile (\<lambda>x. x \<noteq> 0x3E) (tag @ 0x3E # b) = dropWhile (\<lambda>x. x \<noteq> 0x3E) (0x3E # b)"
    using assms(3) by (intro dropWhile_append2) auto
  then have "dropWhile (\<lambda>x. x \<noteq> 0x3E) (tag @ 0x3E # b) = 0x3E # b"
    by simp
  moreover have "hd (tag @ 0x3E # b) \<noteq> 0x3E"
    using assms(2,3) by (cases tag) auto
  ultimately show ?case using assms(2) by simp
next
  case (Cons x xs)
  then show ?case by simp
qed

lemma strip_tags_open_end:
  assumes "0x3C \<notin> set a" "tag \<noteq> []" "0x3E \<notin> set tag"
  shows "strip_tags (a @ 0x3C # tag) = a"
  using assms(1)
proof (induction a)
  case Nil
  have "dropWhile (\<lambda>x. x \<noteq> 0x3E) tag = []"
    using assms(3) by (auto simp: dropWhile_eq_Nil_conv)
  moreover have "hd tag \<noteq> 0x3E"
    using assms(2,3) by (cases tag) auto
  ultimately show ?case using assms(2) by (simp del: dropWhile_eq_Nil_conv)
next
  case (Cons x xs)
  then show ?case by simp
qed

lemma length_split_from: "length (split_from [c] cur s) = Suc (count_list s c)"
  by (induction "[c]" cur s rule: split_from.induct) auto

lemma colon_test: "1 < length (js_split t (js '':'')) \<longleftrightarrow> 0x3A \<in> set t"
proof -
  have "js '':'' = [0x3A]" by (simp add: js_def)
  moreover have "(0 < count_list t (0x3A::jschar)) = (0x3A \<in> set t)"
    using count_list_0_iff [of t "0x3A::jschar"] by auto
  ultimately show ?thesis
    by (simp add: js_split_def length_split_from)
qed

lemma classify_urls_plain: "0x68 \<notin> set d \<Longrightarrow> classify_urls d = (False, d)"
proof -
  assume "0x68 \<notin> set d"
  moreover have "js ''https'' \<noteq> []" "hd (js ''https'') = 0x68" by (simp_all add: js_def)
  ultimately have "\<not> js_includes d (js ''https'')"
    using js_includes_absent_char [of "js ''https''" d] by simp
  then show ?thesis by (simp add: classify_urls_def)
qed

lemma substitute_emojis_no_colon: "0x3A \<notin> set t \<Longrightarrow> substitute_emojis m t = t"
  using colon_test [of t] by (simp add: substitute_emojis_def)

subsection \<open>Sizing hints\<close>

text \<open>
  Claim C8. When a decoded message is rendered into an element that has a container,
  the classes added to the container are the message class, the image class when the
  text contained \<open>https\<close>, then \<open>widermessage\<close> when the rendered output with its tags
  stripped is longer than 80 code units and, after it, \<open>evenwidermessage\<close> when it is
  longer than 200, so that both hints stand together. Stripping removes each tag (from a
  \<open><\<close> followed by something other than \<open>>\<close>, through the next \<open>>\<close> or to the end) and
  keeps a text without \<open><\<close> as it is. For a plain text (no \<open>h\<close>, no colon, no \<open><\<close>)
  the stripped length is the length of the text.
\<close>

theorem sizing_hints:
  "(i < length (nodes pg) \<and> container (nodes pg ! i) = Some c \<longrightarrow>
      className (render_node em d i pg) c
        = className pg c @ js '' encryptedMessageContainer''
            @ (if js_includes d (js ''https'') then js '' containsImage'' else [])
            @ (if 80 < length (strip_tags (innerHTML (nodes (render_node em d i pg) ! i)))
               then js '' widermessage'' else [])
            @ (if 200 < length (strip_tags (innerHTML (nodes (render_node em d i pg) ! i)))
               then js '' evenwidermessage'' else []))
   \<and> (i < length (nodes pg) \<and> container (nodes pg ! i) = Some c
        \<and> 0x68 \<notin> set d \<and> 0x3A \<notin> set d \<and> 0x3C \<notin> set d \<longrightarrow>
      innerHTML (nodes (render_node em d i pg) ! i) = d
      \<and> className (render_node em d i pg) c
        = className pg c @ js '' encryptedMessageContainer''
            @ (if 80 < length d then js '' widermessage'' else [])
            @ (if 200 < length d then js '' evenwidermessage'' else []))
   \<and> (0x3C \<notin> set t \<longrightarrow> strip_tags t = t)
   \<and> (0x3C \<notin> set a \<and> tag \<noteq> [] \<and> 0x3E \<notin> set tag \<longrightarrow>
        strip_tags (a @ 0x3C # tag @ 0x3E # b) = a @ strip_tags b
        \<and> strip_tags (a @ 0x3C # tag) = a)"
proof (intro conjI impI)
  assume h: "i < length (nodes pg) \<and> container (nodes pg ! i) = Some c"
  obtain ci d1 where cu: "classify_urls d = (ci, d1)" by (cases "classify_urls d")
  have ci: "ci = js_includes d (js ''https'')"
    using cu by (auto simp: classify_urls_def Let_def split: if_splits)
  show "className (render_node em d i pg) c
        = className pg c @ js '' encryptedMessageContainer''
            @ (if js_includes d (js ''https'') then js '' containsImage'' else [])
            @ (if 80 < length (strip_tags (innerHTML (nodes (render_node em d i pg) ! i)))
               then js '' widermessage'' else [])
            @ (if 200 < length (strip_tags (innerHTML (nodes (render_node em d i pg) ! i)))
               then js '' evenwidermessage'' else [])"
    using h by (simp add: render_node_def Let_def cu ci [symmetric] size_classes_def)
next
  assume h: "i < length (nodes pg) \<and> container (nodes pg ! i) = Some c
        \<and> 0x68 \<notin> set d \<and> 0x3A \<notin> set d \<and> 0x3C \<notin> set d"
  then have cu: "classify_urls d = (False, d)" and se: "substitute_emojis em d = d"
    and st: "strip_tags d = d"
    by (simp_all add: classify_urls_plain substitute_emojis_no_colon strip_tags_no_tag)
  show "innerHTML (nodes (render_node em d i pg) ! i) = d"
    using h by (simp add: render_node_def Let_def cu se)
  show "className (render_node em d i pg) c
        = className pg c @ js '' encryptedMessageContainer''
            @ (if 80 < length d then js '' widermessage'' else [])
            @ (if 200 < length d then js '' evenwidermessage'' else [])"
    using h by (simp add: render_node_def Let_def cu se st size_classes_def)
next
  assume "0x3C \<notin> set t"
  then show "strip_tags t = t" by (rule strip_tags_no_tag)
next
  assume h: "0x3C \<notin> set a \<and> tag \<noteq> [] \<and> 0x3E \<notin> set tag"
  then show "strip_tags (a @ 0x3C # tag @ 0x3E # b) = a @ strip_tags b"
    by (simp add: strip_tags_tag)
  from h show "strip_tags (a @ 0x3C # tag) = a"
    by (simp add: strip_tags_open_end)
qed

theorem sizing_hints_witness:
  \<open>className (render_node [] (replicate 81 0x61) 0
       \<lparr>nodes = [\<lparr>innerHTML = [], color = [], container = Some 7\<rparr>], className = (\<lambda>c. js ''m'')\<rparr>) 7
     = js ''m encryptedMessageContainer widermessage''
   \<and> className (render_node [] (replicate 201 0x61) 0
       \<lparr>nodes = [\<lparr>innerHTML = [], color = [], container = Some 7\<rparr>], className = (\<lambda>c. js ''m'')\<rparr>) 7
     = js ''m encryptedMessageContainer widermessage evenwidermessage''
   \<and> className (render_node [] (replicate 79 0x61) 0
       \<lparr>nodes = [\<lparr>innerHTML = [], color = [], container = Some 7\<rparr>], className = (\<lambda>c. js ''m'')\<rparr>) 7
     = js ''m encryptedMessageContainer''
   \<and> className (render_node [] (replicate 80 0x61) 0
       \<lparr>nodes = [\<lparr>innerHTML = [], color = [], container = Some 7\<rparr>], className = (\<lambda>c. js ''m'')\<rparr>) 7
     = js ''m encryptedMessageContainer''
   \<and> strip_tags (js ''<b>bold</b> and <i'') = js ''bold and ''\<close>
proof -
  let ?pg = "\<lparr>nodes = [\<lparr>innerHTML = [], color = [], container = Some 7\<rparr>], className = (\<lambda>c. js ''m'')\<rparr>"
  have h: "\<And>n. 0 < length (nodes ?pg) \<and> container (nodes ?pg ! 0) = Some 7
        \<and> 0x68 \<notin> set (replicate n (0x61::jschar)) \<and> 0x3A \<notin> set (replicate n (0x61::jschar))
        \<and> 0x3C \<notin> set (replicate n (0x61::jschar))"
    by simp
  have a: "className (render_node [] (replicate 81 0x61) 0 ?pg) 7
      = js ''m encryptedMessageContainer widermessage''"
    using sizing_hints [of 0 ?pg 7 "[]" "replicate 81 0x61" "[]" "[]" "[]" "[]", THEN conjunct2, THEN conjunct1]
      h [of 81] by (simp add: js_def)
  have b: "className (render_node [] (replicate 201 0x61) 0 ?pg) 7
      = js ''m encryptedMessageContainer widermessage evenwidermessage''"
    using sizing_hints [of 0 ?pg 7 "[]" "replicate 201 0x61" "[]" "[]" "[]" "[]", THEN conjunct2, THEN conjunct1]
      h [of 201] by (simp add: js_def)
  have c: "className (render_node [] (replicate 79 0x61) 0 ?pg) 7
      = js ''m encryptedMessageContainer''"
    using sizing_hints [of 0 ?pg 7 "[]" "replicate 79 0x61" "[]" "[]" "[]" "[]", THEN conjunct2, THEN conjunct1]
      h [of 79] by (simp add: js_def)
  have d: "className (render_node [] (replicate 80 0x61) 0 ?pg) 7
      = js ''m encryptedMessageContainer''"
    using sizing_hints [of 0 ?pg 7 "[]" "replicate 80 0x61" "[]" "[]" "[]" "[]", THEN conjunct2, THEN conjunct1]
      h [of 80] by (simp add: js_def)
  have e1: "strip_tags (js ''bold</b> and <i'') = js ''bold'' @ strip_tags (js '' and <i'')"
    using sizing_hints [of 0 ?pg 7 "[]" "[]" "[]" "js ''bold''" "js ''/b''" "js '' and <i''",
        THEN conjunct2, THEN conjunct2, THEN conjunct2]
    by (simp add: js_def)
  have e2: "strip_tags (js '' and <i'') = js '' and ''"
    using sizing_hints [of 0 ?pg 7 "[]" "[]" "[]" "js '' and ''" "js ''i''" "[]",
        THEN conjunct2, THEN conjunct2, THEN conjunct2]
    by (simp add: js_def)
  have e0: "strip_tags (js ''<b>bold</b> and <i'') = strip_tags (js ''bold</b> and <i'')"
    using sizing_hints [of 0 ?pg 7 "[]" "[]" "[]" "[]" "js ''b''" "js ''bold</b> and <i''",
        THEN conjunct2, THEN conjunct2, THEN conjunct2]
    by (simp add: js_def)
  have e: "strip_tags (js ''<b>bold</b> and <i'') = js ''bold and ''"
    using e0 e1 e2 by (simp add: js_def)
  from a b c d e show ?thesis by blast
qed

subsection \<open>Emoji substitution\<close>






subsection \<open>The decrypt pass\<close>

lemma decrypt_node_step:
  assumes "j < length (nodes pg)"
  shows "length (nodes (decrypt_node pass em r j pg)) = length (nodes pg)
    \<and> (\<forall>i. i \<noteq> j \<longrightarrow> nodes (decrypt_node pass em r j pg) ! i = nodes pg ! i)
    \<and> container (nodes (decrypt_node pass em r j pg) ! j) = container (nodes pg ! j)
    \<and> innerHTML (nodes (decrypt_node pass em r j pg) ! j) =
        (if innerHTML (nodes pg ! j) \<noteq> [] \<and> hd (innerHTML (nodes pg ! j)) = 0xA7 then
           (case decode (butlast (drop 1 (innerHTML (nodes pg ! j)))) pass r of
              Inl e \<Rightarrow> fallback
            | Inr d \<Rightarrow> if d = [] \<or> container (nodes pg ! j) = None then fallback
                       else substitute_emojis em (snd (classify_urls d)))
         else innerHTML (nodes pg ! j))"
  using assms
  by (auto simp: decrypt_node_def render_node_def set_innerHTML_def Let_def
      split: sum.splits prod.splits option.splits)

lemma fold_nodes_local:
  assumes step: "\<And>j pg. j < length (nodes pg) \<Longrightarrow>
      length (nodes (f j pg)) = length (nodes pg)
      \<and> (\<forall>i. i \<noteq> j \<longrightarrow> nodes (f j pg) ! i = nodes pg ! i)
      \<and> container (nodes (f j pg) ! j) = container (nodes pg ! j)
      \<and> innerHTML (nodes (f j pg) ! j) = G j (innerHTML (nodes pg ! j)) (container (nodes pg ! j))"
    and "distinct ks" "\<forall>j \<in> set ks. j < length (nodes pg)"
  shows "length (nodes (fold f ks pg)) = length (nodes pg)
    \<and> (\<forall>i < length (nodes pg).
          container (nodes (fold f ks pg) ! i) = container (nodes pg ! i)
          \<and> innerHTML (nodes (fold f ks pg) ! i)
            = (if i \<in> set ks then G i (innerHTML (nodes pg ! i)) (container (nodes pg ! i))
               else innerHTML (nodes pg ! i)))"
  using assms(2,3)
proof (induction ks arbitrary: pg)
  case Nil
  then show ?case by simp
next
  case (Cons j ks)
  let ?pg = "f j pg"
  have j: "j < length (nodes pg)" using Cons.prems by simp
  note st = step [OF j]
  have len: "length (nodes ?pg) = length (nodes pg)" using st by simp
  have oth: "i \<noteq> j \<Longrightarrow> nodes ?pg ! i = nodes pg ! i" for i using st by simp
  have ih: "length (nodes (fold f ks ?pg)) = length (nodes ?pg)
    \<and> (\<forall>i < length (nodes ?pg).
          container (nodes (fold f ks ?pg) ! i) = container (nodes ?pg ! i)
          \<and> innerHTML (nodes (fold f ks ?pg) ! i)
            = (if i \<in> set ks then G i (innerHTML (nodes ?pg ! i)) (container (nodes ?pg ! i))
               else innerHTML (nodes ?pg ! i)))"
    using Cons.prems len by (intro Cons.IH) auto
  show ?case
  proof (intro conjI allI impI)
    show "length (nodes (fold f (j # ks) pg)) = length (nodes pg)"
      using ih len by simp
  next
    fix i assume i: "i < length (nodes pg)"
    show "container (nodes (fold f (j # ks) pg) ! i) = container (nodes pg ! i)"
      using ih i len oth [of i] st by (cases "i = j") auto
    show "innerHTML (nodes (fold f (j # ks) pg) ! i)
            = (if i \<in> set (j # ks) then G i (innerHTML (nodes pg ! i)) (container (nodes pg ! i))
               else innerHTML (nodes pg ! i))"
    proof (cases "i = j")
      case True
      then have "i \<notin> set ks" using Cons.prems by simp
      then show ?thesis using ih i len st True by simp
    next
      case False
      then show ?thesis using ih i len oth [of i] by simp
    qed
  qed
qed

text \<open>
  Claim C2. The decrypt pass is a total function of the page: it keeps every element,
  and the content it gives to an element depends on that element alone, so that a
  failure on one message has no effect on the others. An element whose content does not
  begin with the marker keeps its content. For an element that begins with the marker,
  an exception raised while decoding gives the literal fallback text, and so does a
  decoded text of length zero; otherwise the content is the rendered text (the fallback
  text again when the element has no container to mark).
\<close>

theorem decode_failures_contained:
  "length (nodes (decryptMessages pass em rnd pg)) = length (nodes pg)
   \<and> fallback = js ''[could not be decrypted]''
   \<and> (\<forall>i < length (nodes pg).
        innerHTML (nodes (decryptMessages pass em rnd pg) ! i) =
          (let h = innerHTML (nodes pg ! i) in
           if h \<noteq> [] \<and> hd h = 0xA7 then
             (case decode (butlast (drop 1 h)) pass (rnd i) of
                Inl e \<Rightarrow> js ''[could not be decrypted]''
              | Inr d \<Rightarrow> if d = [] \<or> container (nodes pg ! i) = None
                         then js ''[could not be decrypted]''
                         else substitute_emojis em (snd (classify_urls d)))
           else h))"
proof -
  have "distinct (rev [0..<length (nodes pg)])"
    "\<forall>j \<in> set (rev [0..<length (nodes pg)]). j < length (nodes pg)"
    by simp_all
  from fold_nodes_local [where f = "\<lambda>i. decrypt_node pass em (rnd i) i"
      and G = "\<lambda>i h c. if h \<noteq> [] \<and> hd h = 0xA7 then
           (case decode (butlast (drop 1 h)) pass (rnd i) of
              Inl e \<Rightarrow> fallback
            | Inr d \<Rightarrow> if d = [] \<or> c = None then fallback
                       else substitute_emojis em (snd (classify_urls d)))
         else h", OF decrypt_node_step this]
  show ?thesis
    by (simp add: decryptMessages_def fallback_def Let_def split: sum.splits)
qed

lemma decode_unpaired_passphrase: "decode x [0xD800] r = Inl URIError"
  by (simp add: decode_def AES_decrypt_def Utf8_parse_def split: prod.splits)

lemma decode_empty_text: "decode [] (js ''k'') r = Inr []"
proof -
  have p: "Utf8_parse (js ''k'') = Inr (Latin1_parse (js ''k''))"
    by (simp add: Utf8_parse_def js_def utf8_bytes_def)
  have o: "OpenSSL_parse [] = (\<lparr>words = [], sigBytes = 0\<rparr>, None)"
    by (simp add: OpenSSL_parse_def Base64_parse_def wget_def)
  have f: "Decryptor_finalize c iv \<lparr>words = [], sigBytes = 0\<rparr> = \<lparr>words = [], sigBytes = 0\<rparr>" for c iv
    by (simp add: Decryptor_finalize_def WordArray_concat_def clamp_def wset_def wget_def
        process_def ceil_div_def Pkcs7_unpad_def Let_def)
  have u: "Utf8_stringify \<lparr>words = [], sigBytes = 0\<rparr> = Inr []"
    by (simp add: Utf8_stringify_def Latin1_stringify_def)
  show ?thesis
    by (simp add: decode_def AES_decrypt_def p o f u split: prod.splits)
qed

theorem decode_failures_contained_witness:
  "length (nodes (decryptMessages [0xD800] [] (\<lambda>i. (0, 0))
      \<lparr>nodes = [\<lparr>innerHTML = js ''hello'', color = [], container = Some 0\<rparr>,
                \<lparr>innerHTML = stopkey @ js ''QUJD'' @ stopkey, color = [], container = Some 1\<rparr>,
                \<lparr>innerHTML = js ''bye'', color = [], container = Some 2\<rparr>],
        className = (\<lambda>c. [])\<rparr>)) = 3
   \<and> innerHTML (nodes (decryptMessages [0xD800] [] (\<lambda>i. (0, 0))
      \<lparr>nodes = [\<lparr>innerHTML = js ''hello'', color = [], container = Some 0\<rparr>,
                \<lparr>innerHTML = stopkey @ js ''QUJD'' @ stopkey, color = [], container = Some 1\<rparr>,
                \<lparr>innerHTML = js ''bye'', color = [], container = Some 2\<rparr>],
        className = (\<lambda>c. [])\<rparr>) ! 0) = js ''hello''
   \<and> innerHTML (nodes (decryptMessages [0xD800] [] (\<lambda>i. (0, 0))
      \<lparr>nodes = [\<lparr>innerHTML = js ''hello'', color = [], container = Some 0\<rparr>,
                \<lparr>innerHTML = stopkey @ js ''QUJD'' @ stopkey, color = [], container = Some 1\<rparr>,
                \<lparr>innerHTML = js ''bye'', color = [], container = Some 2\<rparr>],
        className = (\<lambda>c. [])\<rparr>) ! 1) = js ''[could not be decrypted]''
   \<and> innerHTML (nodes (decryptMessages [0xD800] [] (\<lambda>i. (0, 0))
      \<lparr>nodes = [\<lparr>innerHTML = js ''hello'', color = [], container = Some 0\<rparr>,
                \<lparr>innerHTML = stopkey @ js ''QUJD'' @ stopkey, color = [], container = Some 1\<rparr>,
                \<lparr>innerHTML = js ''bye'', color = [], container = Some 2\<rparr>],
        className = (\<lambda>c. [])\<rparr>) ! 2) = js ''bye''
   \<and> innerHTML (nodes (decryptMessages (js ''k'') [] (\<lambda>i. (0, 0))
      \<lparr>nodes = [\<lparr>innerHTML = stopkey @ stopkey, color = [], container = Some 0\<rparr>,
                \<lparr>innerHTML = js ''x'', color = [], container = None\<rparr>],
        className = (\<lambda>c. [])\<rparr>) ! 0) = js ''[could not be decrypted]''
   \<and> innerHTML (nodes (decryptMessages (js ''k'') [] (\<lambda>i. (0, 0))
      \<lparr>nodes = [\<lparr>innerHTML = stopkey @ stopkey, color = [], container = Some 0\<rparr>,
                \<lparr>innerHTML = js ''x'', color = [], container = None\<rparr>],
        className = (\<lambda>c. [])\<rparr>) ! 1) = js ''x''"
proof -
  let ?P = "\<lparr>nodes = [\<lparr>innerHTML = js ''hello'', color = [], container = Some 0\<rparr>,
                \<lparr>innerHTML = stopkey @ js ''QUJD'' @ stopkey, color = [], container = Some 1\<rparr>,
                \<lparr>innerHTML = js ''bye'', color = [], container = Some 2\<rparr>],
        className = (\<lambda>c. [])\<rparr>"
  let ?Q = "\<lparr>nodes = [\<lparr>innerHTML = stopkey @ stopkey, color = [], container = Some 0\<rparr>,
                \<lparr>innerHTML = js ''x'', color = [], container = None\<rparr>],
        className = (\<lambda>c. [])\<rparr>"
  note a = decode_failures_contained [of "[0xD800]" "[]" "\<lambda>i. (0, 0)" ?P]
  note b = decode_failures_contained [of "js ''k''" "[]" "\<lambda>i. (0, 0)" ?Q]
  note an = a [THEN conjunct2, THEN conjunct2, rule_format]
  note bn = b [THEN conjunct2, THEN conjunct2, rule_format]
  have l: "length (nodes (decryptMessages [0xD800] [] (\<lambda>i. (0, 0)) ?P)) = 3"
    using a [THEN conjunct1] by simp
  have n0: "innerHTML (nodes (decryptMessages [0xD800] [] (\<lambda>i. (0, 0)) ?P) ! 0) = js ''hello''"
    using an [of 0] by (simp add: js_def)
  have n1: "innerHTML (nodes (decryptMessages [0xD800] [] (\<lambda>i. (0, 0)) ?P) ! 1)
              = js ''[could not be decrypted]''"
    using an [of 1] by (simp add: stopkey_def decode_unpaired_passphrase)
  have n2: "innerHTML (nodes (decryptMessages [0xD800] [] (\<lambda>i. (0, 0)) ?P) ! 2) = js ''bye''"
    using an [of 2] by (simp add: js_def)
  have m0: "innerHTML (nodes (decryptMessages (js ''k'') [] (\<lambda>i. (0, 0)) ?Q) ! 0)
              = js ''[could not be decrypted]''"
    using bn [of 0] by (simp add: stopkey_def decode_empty_text)
  have m1: "innerHTML (nodes (decryptMessages (js ''k'') [] (\<lambda>i. (0, 0)) ?Q) ! 1) = js ''x''"
    using bn [of 1] by (simp add: js_def)
  show ?thesis
    using l n0 n1 n2 m0 m1 by (intro conjI)
qed

subsection \<open>The session passphrase\<close>















end
